theory Spec2Isabelle
  imports Main "HOL-Library.Sublist"
begin

section \<open>RoadForm: the form model of roadform/form.py\<close>

text \<open>
  The development embeds the core of \<^verbatim>\<open>src/roadform/form.py\<close>: the validator library
  (\<^verbatim>\<open>FieldValidator\<close>), the field and form records, \<^verbatim>\<open>Form.add_field\<close>,
  \<^verbatim>\<open>Form.validate\<close>, \<^verbatim>\<open>Form.render_html\<close> and \<^verbatim>\<open>Form._render_field\<close>.
  Python exceptions are values of type \<open>exn\<close>; a function that may raise returns
  \<open>exn + 'a\<close> with \<open>Inl\<close> for the exception. Dictionaries that are iterated
  (\<^verbatim>\<open>Form.fields\<close>, \<^verbatim>\<open>FormField.attributes\<close>, \<^verbatim>\<open>FormData.fields\<close>) are
  association lists in insertion order; the submitted data, which is only looked up,
  is a map.
\<close>

subsection \<open>Python values and builtins\<close>

datatype exn = TypeError | ValueError | OverflowError | RegexError | Raised string

text \<open>
  A submitted value is \<^verbatim>\<open>None\<close>, a bool, an int, a float or a str. Python floats are
  kept abstract (type \<open>'f\<close>); what the program needs of them is supplied by the
  environment record below.
\<close>

datatype 'f pyval = PNone | PBool bool | PInt int | PFloat 'f | PStr string

text \<open>
  A validator parameter (\<^verbatim>\<open>Any\<close> in the source) is a plain value or a callable. What a
  call of the callable on a value gives has the type \<open>'r\<close>. For a callable without a
  state of its own this is the value it returns or the exception it raises
  (\<open>'f pure\<close>); this is the model all properties of the validators are proved on. For a
  callable with a state (a closure over a counter, a cache, a list it appends to) it is
  a function of the state before the call to the outcome and the state after it
  (\<open>('f, 'w) stateful\<close>).
\<close>

datatype ('f, 'r) param = Val "'f pyval" | Fun "'f pyval \<Rightarrow> 'r"

type_synonym 'f pure = "exn + 'f pyval"

type_synonym ('f, 'w) stateful = "'w \<Rightarrow> (exn + 'f pyval) \<times> 'w"

datatype pycmp = CmpLess | CmpEqual | CmpGreater | CmpUnordered

text \<open>
  The builtins of Python that the module calls and that are outside the repository:
  \<^item> \<open>re_match p s\<close>: whether \<^verbatim>\<open>re.match(p, s)\<close> finds a match; \<open>Inl\<close> when the
    call raises (a pattern that does not compile);
  \<^item> \<open>float_of_str s\<close>: \<^verbatim>\<open>float(s)\<close> for a str, \<open>None\<close> when it raises ValueError;
  \<^item> \<open>float_of_int i\<close>: \<^verbatim>\<open>float(i)\<close> for an int, \<open>None\<close> when it raises
    OverflowError;
  \<^item> \<open>float_cmp x y\<close>, \<open>float_cmp_int x i\<close>: the order of a float and a float, of a
    float and an int (unordered for a NaN);
  \<^item> \<open>float_str x\<close>: \<^verbatim>\<open>str(x)\<close> of a float; \<open>float_bool x\<close>: its truth value;
  \<^item> \<open>int_max_str_digits\<close>: \<^verbatim>\<open>sys.get_int_max_str_digits()\<close>, the limit on the
    number of digits of an int that is converted to a str: 4300 by default since Python
    3.11, and 0 where there is no limit.
\<close>

record 'f pyenv =
  re_match :: "string \<Rightarrow> string \<Rightarrow> exn + bool"
  float_of_str :: "string \<Rightarrow> 'f option"
  float_of_int :: "int \<Rightarrow> 'f option"
  float_cmp :: "'f \<Rightarrow> 'f \<Rightarrow> pycmp"
  float_cmp_int :: "'f \<Rightarrow> int \<Rightarrow> pycmp"
  float_str :: "'f \<Rightarrow> string"
  float_bool :: "'f \<Rightarrow> bool"
  int_max_str_digits :: nat

definition digit_char :: "nat \<Rightarrow> char" where
  "digit_char d = char_of (48 + d)"

fun str_nat :: "nat \<Rightarrow> string" where
  "str_nat n = (if n < 10 then [digit_char n] else str_nat (n div 10) @ [digit_char (n mod 10)])"

declare str_nat.simps [simp del]

definition str_int :: "int \<Rightarrow> string" where
  "str_int i = (if i < 0 then CHR ''-'' # str_nat (nat (- i)) else str_nat (nat i))"

text \<open>
  The conversion of an int to a str raises ValueError when there is a limit and the int
  has more digits than the limit (the sign does not count).
\<close>

definition int_str_raises :: "'f pyenv \<Rightarrow> int \<Rightarrow> bool" where
  "int_str_raises env i =
     (0 < int_max_str_digits env \<and> int_max_str_digits env < length (str_nat (nat \<bar>i\<bar>)))"

text \<open>\<^verbatim>\<open>str(value)\<close>, which is also what an f-string makes of \<^verbatim>\<open>{value}\<close>.\<close>

fun py_str :: "'f pyenv \<Rightarrow> 'f pyval \<Rightarrow> exn + string" where
  "py_str env PNone = Inr ''None''"
| "py_str env (PBool b) = Inr (if b then ''True'' else ''False'')"
| "py_str env (PInt i) = (if int_str_raises env i then Inl ValueError else Inr (str_int i))"
| "py_str env (PFloat x) = Inr (float_str env x)"
| "py_str env (PStr s) = Inr s"

text \<open>The truth value of a value, as \<^verbatim>\<open>if value\<close>, \<^verbatim>\<open>not value\<close> and \<^verbatim>\<open>or\<close> test it.\<close>

fun truthy :: "'f pyenv \<Rightarrow> 'f pyval \<Rightarrow> bool" where
  "truthy env PNone = False"
| "truthy env (PBool b) = b"
| "truthy env (PInt i) = (i \<noteq> 0)"
| "truthy env (PFloat x) = float_bool env x"
| "truthy env (PStr s) = (s \<noteq> [])"

text \<open>\<^verbatim>\<open>float(value)\<close>; a bool is an int in Python.\<close>

fun py_float :: "'f pyenv \<Rightarrow> 'f pyval \<Rightarrow> exn + 'f" where
  "py_float env PNone = Inl TypeError"
| "py_float env (PBool b) =
     (case float_of_int env (if b then 1 else 0) of None \<Rightarrow> Inl OverflowError | Some x \<Rightarrow> Inr x)"
| "py_float env (PInt i) =
     (case float_of_int env i of None \<Rightarrow> Inl OverflowError | Some x \<Rightarrow> Inr x)"
| "py_float env (PFloat x) = Inr x"
| "py_float env (PStr s) =
     (case float_of_str env s of None \<Rightarrow> Inl ValueError | Some x \<Rightarrow> Inr x)"

definition cmp_int :: "int \<Rightarrow> int \<Rightarrow> pycmp" where
  "cmp_int a b = (if a < b then CmpLess else if a = b then CmpEqual else CmpGreater)"

definition flip_cmp :: "pycmp \<Rightarrow> pycmp" where
  "flip_cmp c = (case c of CmpLess \<Rightarrow> CmpGreater | CmpGreater \<Rightarrow> CmpLess | c' \<Rightarrow> c')"

definition is_ge :: "pycmp \<Rightarrow> bool" where
  "is_ge c = (c = CmpEqual \<or> c = CmpGreater)"

definition is_le :: "pycmp \<Rightarrow> bool" where
  "is_le c = (c = CmpEqual \<or> c = CmpLess)"

text \<open>
  The order of an int (a length) and a bound, and of a float and a bound. Comparing a
  number with \<^verbatim>\<open>None\<close>, a str or a function raises TypeError.
\<close>

fun int_cmp_param :: "'f pyenv \<Rightarrow> int \<Rightarrow> ('f, 'r) param \<Rightarrow> exn + pycmp" where
  "int_cmp_param env n (Val (PInt m)) = Inr (cmp_int n m)"
| "int_cmp_param env n (Val (PBool b)) = Inr (cmp_int n (if b then 1 else 0))"
| "int_cmp_param env n (Val (PFloat y)) = Inr (flip_cmp (float_cmp_int env y n))"
| "int_cmp_param env n (Val PNone) = Inl TypeError"
| "int_cmp_param env n (Val (PStr s)) = Inl TypeError"
| "int_cmp_param env n (Fun p) = Inl TypeError"

fun float_cmp_param :: "'f pyenv \<Rightarrow> 'f \<Rightarrow> ('f, 'r) param \<Rightarrow> exn + pycmp" where
  "float_cmp_param env x (Val (PInt m)) = Inr (float_cmp_int env x m)"
| "float_cmp_param env x (Val (PBool b)) = Inr (float_cmp_int env x (if b then 1 else 0))"
| "float_cmp_param env x (Val (PFloat y)) = Inr (float_cmp env x y)"
| "float_cmp_param env x (Val PNone) = Inl TypeError"
| "float_cmp_param env x (Val (PStr s)) = Inl TypeError"
| "float_cmp_param env x (Fun p) = Inl TypeError"

text \<open>
  \<^verbatim>\<open>str.isspace\<close> on the code points below 256, which is what \<^verbatim>\<open>str.strip()\<close>
  removes.
\<close>

definition is_space :: "char \<Rightarrow> bool" where
  "is_space c = (let n = (of_char c :: nat) in
     (9 \<le> n \<and> n \<le> 13) \<or> (28 \<le> n \<and> n \<le> 32) \<or> n = 133 \<or> n = 160)"

definition strip :: "string \<Rightarrow> string" where
  "strip s = rev (dropWhile is_space (rev (dropWhile is_space s)))"

text \<open>\<^verbatim>\<open>html.escape(s)\<close> with its default \<^verbatim>\<open>quote=True\<close>.\<close>

definition escape_char :: "char \<Rightarrow> string" where
  \<open>escape_char c =
     (if c = CHR ''&'' then ''&amp;''
      else if c = CHR ''<'' then ''&lt;''
      else if c = CHR ''>'' then ''&gt;''
      else if c = CHR 0x22 then ''&quot;''
      else if c = CHR 0x27 then ''&#x27;''
      else [c])\<close>

definition html_escape :: "string \<Rightarrow> string" where
  "html_escape s = concat (map escape_char s)"

text \<open>\<^verbatim>\<open>sep.join(parts)\<close>.\<close>

fun join :: "string \<Rightarrow> string list \<Rightarrow> string" where
  "join sep [] = []"
| "join sep [x] = x"
| "join sep (x # y # ys) = x @ sep @ join sep (y # ys)"

text \<open>
  Assignment \<^verbatim>\<open>d[k] = v\<close> on a dictionary kept in insertion order: an existing key
  keeps its place and takes the new value, a new key goes to the end.
\<close>

fun dict_set :: "'k \<Rightarrow> 'v \<Rightarrow> ('k \<times> 'v) list \<Rightarrow> ('k \<times> 'v) list" where
  "dict_set k v [] = [(k, v)]"
| "dict_set k v ((k', v') # kvs) =
     (if k' = k then (k, v) # kvs else (k', v') # dict_set k v kvs)"

definition dict_get :: "('k \<times> 'v) list \<Rightarrow> 'k \<Rightarrow> 'v option" where
  "dict_get d k = map_of d k"

subsection \<open>The data model\<close>

datatype FieldType =
  TEXT | EMAIL_FIELD | PASSWORD | NUMBER | DATE | DATETIME | SELECT | CHECKBOX | RADIO
  | TEXTAREA | FILE | HIDDEN

fun type_value :: "FieldType \<Rightarrow> string" where
  "type_value TEXT = ''text''"
| "type_value EMAIL_FIELD = ''email''"
| "type_value PASSWORD = ''password''"
| "type_value NUMBER = ''number''"
| "type_value DATE = ''date''"
| "type_value DATETIME = ''datetime''"
| "type_value SELECT = ''select''"
| "type_value CHECKBOX = ''checkbox''"
| "type_value RADIO = ''radio''"
| "type_value TEXTAREA = ''textarea''"
| "type_value FILE = ''file''"
| "type_value HIDDEN = ''hidden''"

datatype ValidationRule =
  REQUIRED | EMAIL | URL | MIN_LENGTH | MAX_LENGTH | MIN_VALUE | MAX_VALUE | PATTERN | CUSTOM

fun rule_value :: "ValidationRule \<Rightarrow> string" where
  "rule_value REQUIRED = ''required''"
| "rule_value EMAIL = ''email''"
| "rule_value URL = ''url''"
| "rule_value MIN_LENGTH = ''min_length''"
| "rule_value MAX_LENGTH = ''max_length''"
| "rule_value MIN_VALUE = ''min_value''"
| "rule_value MAX_VALUE = ''max_value''"
| "rule_value PATTERN = ''pattern''"
| "rule_value CUSTOM = ''custom''"

record ValidationError =
  err_field :: string
  err_rule :: string
  err_message :: string

record FieldOption =
  opt_value :: string
  opt_label :: string
  opt_selected :: bool
  opt_disabled :: bool

text \<open>A validator is the tuple \<^verbatim>\<open>(rule, value, message)\<close> that \<^verbatim>\<open>add_validator\<close> appends.\<close>

type_synonym ('f, 'r) validator = "ValidationRule \<times> ('f, 'r) param \<times> string option"

record ('f, 'r) FormField =
  name :: string
  ftype :: FieldType
  label :: string
  placeholder :: string
  default_value :: "'f pyval"
  required :: bool
  disabled :: bool
  readonly :: bool
  options :: "FieldOption list"
  validators :: "('f, 'r) validator list"
  attributes :: "(string \<times> string) list"
  help_text :: string

record 'f FormData =
  data_fields :: "(string \<times> 'f pyval) list"
  valid :: bool
  errors :: "ValidationError list"

record ('f, 'r) Form =
  form_name :: string
  form_fields :: "(string \<times> ('f, 'r) FormField) list"
  form_method :: string
  form_action :: string
  form_enctype :: string
  form_attributes :: "(string \<times> string) list"

text \<open>\<^verbatim>\<open>Form.__init__\<close> and the defaults of the \<^verbatim>\<open>FormField\<close> dataclass.\<close>

definition Form_init :: "string \<Rightarrow> ('f, 'r) Form" where
  "Form_init n = \<lparr> form_name = n, form_fields = [], form_method = ''POST'', form_action = [],
     form_enctype = ''application/x-www-form-urlencoded'', form_attributes = [] \<rparr>"

definition FormField_init :: "string \<Rightarrow> ('f, 'r) FormField" where
  "FormField_init n = \<lparr> name = n, ftype = TEXT, label = [], placeholder = [],
     default_value = PNone, required = False, disabled = False, readonly = False,
     options = [], validators = [], attributes = [], help_text = [] \<rparr>"

definition add_validator ::
  "ValidationRule \<Rightarrow> ('f, 'r) param \<Rightarrow> string option \<Rightarrow> ('f, 'r) FormField \<Rightarrow>
   ('f, 'r) FormField" where
  "add_validator rule v message fld = fld\<lparr> validators := validators fld @ [(rule, v, message)] \<rparr>"

definition add_field :: "('f, 'r) FormField \<Rightarrow> ('f, 'r) Form \<Rightarrow> ('f, 'r) Form" where
  "add_field fld F = F\<lparr> form_fields := dict_set (name fld) fld (form_fields F) \<rparr>"

subsection \<open>The validator library\<close>

definition email_pattern :: string where
  \<open>email_pattern = ''^[a-zA-Z0-9._%+-]+@[a-zA-Z0-9.-]+'' @ [CHR 0x5C] @ ''.[a-zA-Z]{2,}$''\<close>

definition url_pattern :: string where
  \<open>url_pattern = ''^https?://[^'' @ [CHR 0x5C] @ ''s/$.?#].[^'' @ [CHR 0x5C] @ ''s]*$''\<close>

definition FieldValidator_required :: "'f pyval \<Rightarrow> bool" where
  "FieldValidator_required v =
     (case v of PNone \<Rightarrow> False | PStr s \<Rightarrow> strip s \<noteq> [] | _ \<Rightarrow> True)"

definition FieldValidator_email :: "'f pyenv \<Rightarrow> 'f pyval \<Rightarrow> exn + bool" where
  "FieldValidator_email env v =
     (if \<not> truthy env v then Inr True
      else case py_str env v of
             Inl e \<Rightarrow> Inl e
           | Inr s \<Rightarrow> re_match env email_pattern s)"

definition FieldValidator_url :: "'f pyenv \<Rightarrow> 'f pyval \<Rightarrow> exn + bool" where
  "FieldValidator_url env v =
     (if \<not> truthy env v then Inr True
      else case py_str env v of
             Inl e \<Rightarrow> Inl e
           | Inr s \<Rightarrow> re_match env url_pattern s)"

definition FieldValidator_min_length ::
  "'f pyenv \<Rightarrow> 'f pyval \<Rightarrow> ('f, 'r) param \<Rightarrow> exn + bool" where
  "FieldValidator_min_length env v min_len =
     (if \<not> truthy env v then Inr True
      else case py_str env v of
             Inl e \<Rightarrow> Inl e
           | Inr s \<Rightarrow> map_sum id is_ge (int_cmp_param env (int (length s)) min_len))"

definition FieldValidator_max_length ::
  "'f pyenv \<Rightarrow> 'f pyval \<Rightarrow> ('f, 'r) param \<Rightarrow> exn + bool" where
  "FieldValidator_max_length env v max_len =
     (if \<not> truthy env v then Inr True
      else case py_str env v of
             Inl e \<Rightarrow> Inl e
           | Inr s \<Rightarrow> map_sum id is_le (int_cmp_param env (int (length s)) max_len))"

definition FieldValidator_min_value ::
  "'f pyenv \<Rightarrow> 'f pyval \<Rightarrow> ('f, 'r) param \<Rightarrow> exn + bool" where
  "FieldValidator_min_value env v min_val =
     (if v = PNone then Inr True
      else case py_float env v of
             Inl e \<Rightarrow> Inl e
           | Inr x \<Rightarrow> map_sum id is_ge (float_cmp_param env x min_val))"

definition FieldValidator_max_value ::
  "'f pyenv \<Rightarrow> 'f pyval \<Rightarrow> ('f, 'r) param \<Rightarrow> exn + bool" where
  "FieldValidator_max_value env v max_val =
     (if v = PNone then Inr True
      else case py_float env v of
             Inl e \<Rightarrow> Inl e
           | Inr x \<Rightarrow> map_sum id is_le (float_cmp_param env x max_val))"

text \<open>
  \<^verbatim>\<open>re.match(regex, str(value))\<close>: the argument \<^verbatim>\<open>str(value)\<close> is evaluated before the
  call, which raises TypeError when the pattern is not a str.
\<close>

definition FieldValidator_pattern ::
  "'f pyenv \<Rightarrow> 'f pyval \<Rightarrow> ('f, 'r) param \<Rightarrow> exn + bool" where
  "FieldValidator_pattern env v regex =
     (if \<not> truthy env v then Inr True
      else case py_str env v of
             Inl e \<Rightarrow> Inl e
           | Inr s \<Rightarrow>
               (case regex of
                  Val (PStr rx) \<Rightarrow> re_match env rx s
                | _ \<Rightarrow> Inl TypeError))"

subsection \<open>Form.validate\<close>

text \<open>\<^verbatim>\<open>d.get(k, default)\<close> on the submitted data.\<close>

definition data_get :: "(string \<rightharpoonup> 'v) \<Rightarrow> string \<Rightarrow> 'v \<Rightarrow> 'v" where
  "data_get d k dflt = (case d k of Some v \<Rightarrow> v | None \<Rightarrow> dflt)"

text \<open>The text \<^verbatim>\<open>{field.label or name}\<close> of the messages.\<close>

definition label_or_name :: "string \<Rightarrow> ('f, 'r) FormField \<Rightarrow> string" where
  "label_or_name n fld = (if label fld \<noteq> [] then label fld else n)"

text \<open>
  The text \<^verbatim>\<open>{param}\<close> of the messages. For an int it is the conversion to a str, which
  may raise. The text of a function is never seen: a length or value rule with a
  function parameter is valid or raises.
\<close>

fun param_str :: "'f pyenv \<Rightarrow> ('f, 'r) param \<Rightarrow> exn + string" where
  "param_str env (Val v) = py_str env v"
| "param_str env (Fun p) = Inr ''<function>''"

text \<open>
  The \<^verbatim>\<open>if/elif\<close> chain of the loop body: the value of the variable \<^verbatim>\<open>valid\<close>, as a
  truth value. It is left \<^verbatim>\<open>True\<close> when no branch is taken. Here the custom predicate
  has no state.
\<close>

definition check_rule ::
  "'f pyenv \<Rightarrow> 'f pyval \<Rightarrow> ValidationRule \<Rightarrow> ('f, 'f pure) param \<Rightarrow> exn + bool" where
  "check_rule env v rule p =
     (case rule of
        REQUIRED \<Rightarrow> Inr (FieldValidator_required v)
      | EMAIL \<Rightarrow> FieldValidator_email env v
      | URL \<Rightarrow> FieldValidator_url env v
      | MIN_LENGTH \<Rightarrow> FieldValidator_min_length env v p
      | MAX_LENGTH \<Rightarrow> FieldValidator_max_length env v p
      | MIN_VALUE \<Rightarrow> FieldValidator_min_value env v p
      | MAX_VALUE \<Rightarrow> FieldValidator_max_value env v p
      | PATTERN \<Rightarrow> FieldValidator_pattern env v p
      | CUSTOM \<Rightarrow> (case p of Fun f \<Rightarrow> map_sum id (truthy env) (f v) | Val x \<Rightarrow> Inr True))"

text \<open>
  The variable \<^verbatim>\<open>default_msg\<close> of the loop body. The f-string of a length or value rule
  is formatted in every pass, after the rule was checked, also when the rule is valid.
\<close>

definition default_msg ::
  "'f pyenv \<Rightarrow> string \<Rightarrow> ('f, 'r) FormField \<Rightarrow> ValidationRule \<Rightarrow> ('f, 'r) param \<Rightarrow> exn + string"
  where
  "default_msg env n fld rule p =
     (case rule of
        REQUIRED \<Rightarrow> Inr (label_or_name n fld @ '' is required'')
      | EMAIL \<Rightarrow> Inr ''Invalid email address''
      | URL \<Rightarrow> Inr ''Invalid URL''
      | MIN_LENGTH \<Rightarrow> map_sum id (\<lambda>s. ''Minimum length is '' @ s) (param_str env p)
      | MAX_LENGTH \<Rightarrow> map_sum id (\<lambda>s. ''Maximum length is '' @ s) (param_str env p)
      | MIN_VALUE \<Rightarrow> map_sum id (\<lambda>s. ''Minimum value is '' @ s) (param_str env p)
      | MAX_VALUE \<Rightarrow> map_sum id (\<lambda>s. ''Maximum value is '' @ s) (param_str env p)
      | PATTERN \<Rightarrow> Inr ''Invalid format''
      | CUSTOM \<Rightarrow> Inr (label_or_name n fld @ '' validation failed''))"

text \<open>\<^verbatim>\<open>message or default_msg\<close>.\<close>

definition message_or :: "string option \<Rightarrow> string \<Rightarrow> string" where
  "message_or message dflt =
     (case message of None \<Rightarrow> dflt | Some m \<Rightarrow> if m \<noteq> [] then m else dflt)"

text \<open>
  The end of a pass of the inner loop, once the rule is checked: the default message is
  formatted, and an error is appended when the rule is not valid.
\<close>

definition record_error ::
  "'f pyenv \<Rightarrow> string \<Rightarrow> ('f, 'r) FormField \<Rightarrow> ('f, 'r) validator \<Rightarrow> bool \<Rightarrow>
   exn + ValidationError list" where
  "record_error env n fld vd ok =
     (case vd of (rule, p, message) \<Rightarrow>
        (case default_msg env n fld rule p of
           Inl e \<Rightarrow> Inl e
         | Inr dm \<Rightarrow>
             Inr (if ok then []
                  else [\<lparr> err_field = n, err_rule = rule_value rule,
                          err_message = message_or message dm \<rparr>])))"

text \<open>
  One pass of the inner loop, for one attached validator: the errors it appends (none or
  one), or the exception it raises.
\<close>

definition apply_validator ::
  "'f pyenv \<Rightarrow> string \<Rightarrow> ('f, 'f pure) FormField \<Rightarrow> 'f pyval \<Rightarrow> ('f, 'f pure) validator \<Rightarrow>
   exn + ValidationError list" where
  "apply_validator env n fld v vd =
     (case vd of (rule, p, message) \<Rightarrow>
        (case check_rule env v rule p of
           Inl e \<Rightarrow> Inl e
         | Inr ok \<Rightarrow> record_error env n fld vd ok))"

text \<open>The inner loop over \<^verbatim>\<open>field.validators\<close>, appending to \<^verbatim>\<open>errors\<close>.\<close>

fun validators_loop ::
  "'f pyenv \<Rightarrow> string \<Rightarrow> ('f, 'f pure) FormField \<Rightarrow> 'f pyval \<Rightarrow> ('f, 'f pure) validator list \<Rightarrow>
   ValidationError list \<Rightarrow> exn + ValidationError list" where
  "validators_loop env n fld v [] errs = Inr errs"
| "validators_loop env n fld v (vd # vds) errs =
     (case apply_validator env n fld v vd of
        Inl e \<Rightarrow> Inl e
      | Inr es \<Rightarrow> validators_loop env n fld v vds (errs @ es))"

definition required_error :: "string \<Rightarrow> ('f, 'r) FormField \<Rightarrow> ValidationError" where
  "required_error n fld =
     \<lparr> err_field = n, err_rule = ''required'', err_message = label_or_name n fld @ '' is required'' \<rparr>"

text \<open>
  The outer loop over \<^verbatim>\<open>self.fields.items()\<close>, with the two locals \<^verbatim>\<open>errors\<close> and
  \<^verbatim>\<open>validated\<close>. The first branch is the \<^verbatim>\<open>continue\<close>.
\<close>

fun fields_loop ::
  "'f pyenv \<Rightarrow> (string \<rightharpoonup> 'f pyval) \<Rightarrow> (string \<times> ('f, 'f pure) FormField) list \<Rightarrow>
   ValidationError list \<Rightarrow> (string \<times> 'f pyval) list \<Rightarrow>
   exn + (ValidationError list \<times> (string \<times> 'f pyval) list)" where
  "fields_loop env d [] errs validated = Inr (errs, validated)"
| "fields_loop env d ((n, fld) # rest) errs validated =
     (let v = data_get d n (default_value fld) in
      if required fld \<and> \<not> FieldValidator_required v
      then fields_loop env d rest (errs @ [required_error n fld]) validated
      else (case validators_loop env n fld v (validators fld) errs of
              Inl e \<Rightarrow> Inl e
            | Inr errs' \<Rightarrow> fields_loop env d rest errs' (dict_set n v validated)))"

definition validate ::
  "'f pyenv \<Rightarrow> ('f, 'f pure) Form \<Rightarrow> (string \<rightharpoonup> 'f pyval) \<Rightarrow> exn + 'f FormData" where
  "validate env F d =
     (case fields_loop env d (form_fields F) [] [] of
        Inl e \<Rightarrow> Inl e
      | Inr (errs, validated) \<Rightarrow>
          Inr \<lparr> data_fields = validated, valid = (length errs = 0), errors = errs \<rparr>)"

subsection \<open>Form.validate with predicates that have a state\<close>

text \<open>
  The same code, for custom predicates with a state \<open>'w\<close>: a call of a predicate takes
  the state and leaves a new one, and every function takes the state and returns it with
  its result. No other statement of validate changes a state: the only assignments are
  to the locals \<^verbatim>\<open>errors\<close> and \<^verbatim>\<open>validated\<close>. When an exception is raised the state is
  the one at that moment.
\<close>

definition check_rule_st ::
  "'f pyenv \<Rightarrow> 'f pyval \<Rightarrow> ValidationRule \<Rightarrow> ('f, ('f, 'w) stateful) param \<Rightarrow> 'w \<Rightarrow>
   (exn + bool) \<times> 'w" where
  "check_rule_st env v rule p w =
     (case rule of
        REQUIRED \<Rightarrow> (Inr (FieldValidator_required v), w)
      | EMAIL \<Rightarrow> (FieldValidator_email env v, w)
      | URL \<Rightarrow> (FieldValidator_url env v, w)
      | MIN_LENGTH \<Rightarrow> (FieldValidator_min_length env v p, w)
      | MAX_LENGTH \<Rightarrow> (FieldValidator_max_length env v p, w)
      | MIN_VALUE \<Rightarrow> (FieldValidator_min_value env v p, w)
      | MAX_VALUE \<Rightarrow> (FieldValidator_max_value env v p, w)
      | PATTERN \<Rightarrow> (FieldValidator_pattern env v p, w)
      | CUSTOM \<Rightarrow>
          (case p of
             Fun f \<Rightarrow> (case f v w of (r, w') \<Rightarrow> (map_sum id (truthy env) r, w'))
           | Val x \<Rightarrow> (Inr True, w)))"

definition apply_validator_st ::
  "'f pyenv \<Rightarrow> string \<Rightarrow> ('f, ('f, 'w) stateful) FormField \<Rightarrow> 'f pyval \<Rightarrow>
   ('f, ('f, 'w) stateful) validator \<Rightarrow> 'w \<Rightarrow> (exn + ValidationError list) \<times> 'w" where
  "apply_validator_st env n fld v vd w =
     (case vd of (rule, p, message) \<Rightarrow>
        (case check_rule_st env v rule p w of
           (Inl e, w') \<Rightarrow> (Inl e, w')
         | (Inr ok, w') \<Rightarrow> (record_error env n fld vd ok, w')))"

fun validators_loop_st ::
  "'f pyenv \<Rightarrow> string \<Rightarrow> ('f, ('f, 'w) stateful) FormField \<Rightarrow> 'f pyval \<Rightarrow>
   ('f, ('f, 'w) stateful) validator list \<Rightarrow> ValidationError list \<Rightarrow> 'w \<Rightarrow>
   (exn + ValidationError list) \<times> 'w" where
  "validators_loop_st env n fld v [] errs w = (Inr errs, w)"
| "validators_loop_st env n fld v (vd # vds) errs w =
     (case apply_validator_st env n fld v vd w of
        (Inl e, w') \<Rightarrow> (Inl e, w')
      | (Inr es, w') \<Rightarrow> validators_loop_st env n fld v vds (errs @ es) w')"

fun fields_loop_st ::
  "'f pyenv \<Rightarrow> (string \<rightharpoonup> 'f pyval) \<Rightarrow> (string \<times> ('f, ('f, 'w) stateful) FormField) list \<Rightarrow>
   ValidationError list \<Rightarrow> (string \<times> 'f pyval) list \<Rightarrow> 'w \<Rightarrow>
   (exn + (ValidationError list \<times> (string \<times> 'f pyval) list)) \<times> 'w" where
  "fields_loop_st env d [] errs validated w = (Inr (errs, validated), w)"
| "fields_loop_st env d ((n, fld) # rest) errs validated w =
     (let v = data_get d n (default_value fld) in
      if required fld \<and> \<not> FieldValidator_required v
      then fields_loop_st env d rest (errs @ [required_error n fld]) validated w
      else (case validators_loop_st env n fld v (validators fld) errs w of
              (Inl e, w') \<Rightarrow> (Inl e, w')
            | (Inr errs', w') \<Rightarrow> fields_loop_st env d rest errs' (dict_set n v validated) w'))"

definition validate_st ::
  "'f pyenv \<Rightarrow> ('f, ('f, 'w) stateful) Form \<Rightarrow> (string \<rightharpoonup> 'f pyval) \<Rightarrow> 'w \<Rightarrow>
   (exn + 'f FormData) \<times> 'w" where
  "validate_st env F d w =
     (case fields_loop_st env d (form_fields F) [] [] w of
        (Inl e, w') \<Rightarrow> (Inl e, w')
      | (Inr (errs, validated), w') \<Rightarrow>
          (Inr \<lparr> data_fields = validated, valid = (length errs = 0), errors = errs \<rparr>, w'))"

text \<open>
  A form whose predicates have no state, among the forms whose predicates may have one:
  the call of a predicate leaves the state as it is, and what it returns does not depend
  on the state.
\<close>

fun lift_param :: "('f, 'f pure) param \<Rightarrow> ('f, ('f, 'w) stateful) param" where
  "lift_param (Val x) = Val x"
| "lift_param (Fun f) = Fun (\<lambda>v w. (f v, w))"

definition lift_field :: "('f, 'f pure) FormField \<Rightarrow> ('f, ('f, 'w) stateful) FormField" where
  "lift_field fld =
     \<lparr> name = name fld, ftype = ftype fld, label = label fld, placeholder = placeholder fld,
       default_value = default_value fld, required = required fld, disabled = disabled fld,
       readonly = readonly fld, options = options fld,
       validators = map (\<lambda>(rule, p, message). (rule, lift_param p, message)) (validators fld),
       attributes = attributes fld, help_text = help_text fld \<rparr>"

definition lift_form :: "('f, 'f pure) Form \<Rightarrow> ('f, ('f, 'w) stateful) Form" where
  "lift_form F =
     \<lparr> form_name = form_name F,
       form_fields = map (\<lambda>(n, fld). (n, lift_field fld)) (form_fields F),
       form_method = form_method F, form_action = form_action F,
       form_enctype = form_enctype F, form_attributes = form_attributes F \<rparr>"

subsection \<open>Rendering\<close>

definition newline :: string where
  "newline = [CHR 0x0A]"

text \<open>
  The locals \<^verbatim>\<open>escaped_value\<close> and \<^verbatim>\<open>attrs\<close> of \<^verbatim>\<open>_render_field\<close>. The first is
  computed before anything else, for a field of any type, and raises when
  \<^verbatim>\<open>str(value)\<close> does.
\<close>

definition escaped_value :: "'f pyenv \<Rightarrow> 'f pyval \<Rightarrow> exn + string" where
  "escaped_value env v = (if truthy env v then map_sum id html_escape (py_str env v) else Inr [])"

definition attrs :: "('f, 'r) FormField \<Rightarrow> string" where
  \<open>attrs fld = join '' '' (map (\<lambda>(k, v). k @ ''="'' @ v @ ''"'') (attributes fld))\<close>

definition flag :: "bool \<Rightarrow> string \<Rightarrow> string" where
  "flag b s = (if b then s else [])"

text \<open>The body of the loop over \<^verbatim>\<open>field.options\<close>, and the loop.\<close>

definition render_option :: "'f pyenv \<Rightarrow> 'f pyval \<Rightarrow> FieldOption \<Rightarrow> exn + string" where
  \<open>render_option env v opt =
     (case py_str env v of
        Inl e \<Rightarrow> Inl e
      | Inr s \<Rightarrow>
          Inr (''<option value="'' @ opt_value opt @ ''"''
                 @ flag (opt_value opt = s) '' selected''
                 @ ''>'' @ opt_label opt @ ''</option>''))\<close>

fun render_options :: "'f pyenv \<Rightarrow> 'f pyval \<Rightarrow> FieldOption list \<Rightarrow> exn + string list" where
  "render_options env v [] = Inr []"
| "render_options env v (opt # opts) =
     (case render_option env v opt of
        Inl e \<Rightarrow> Inl e
      | Inr line \<Rightarrow> map_sum id (\<lambda>lines. line # lines) (render_options env v opts))"

text \<open>
  The element of the field, by type: the \<^verbatim>\<open>if/elif/else\<close> on \<^verbatim>\<open>field.type\<close>, with
  the escaped value \<open>ev\<close> computed before.
\<close>

definition render_control ::
  "'f pyenv \<Rightarrow> ('f, 'r) FormField \<Rightarrow> 'f pyval \<Rightarrow> string \<Rightarrow> exn + string list" where
  \<open>render_control env fld v ev =
     (if ftype fld = TEXTAREA then
        Inr [''<textarea name="'' @ name fld @ ''" id="'' @ name fld
               @ ''" placeholder="'' @ placeholder fld @ ''"''
               @ flag (required fld) '' required'' @ flag (disabled fld) '' disabled''
               @ flag (readonly fld) '' readonly'' @ '' '' @ attrs fld @ ''>''
               @ ev @ ''</textarea>'']
      else if ftype fld = SELECT then
        map_sum id
          (\<lambda>lines.
             [''<select name="'' @ name fld @ ''" id="'' @ name fld @ ''"''
                @ flag (required fld) '' required'' @ flag (disabled fld) '' disabled''
                @ '' '' @ attrs fld @ ''>'']
             @ lines
             @ [''</select>''])
          (render_options env v (options fld))
      else if ftype fld = CHECKBOX then
        Inr [''<label><input type="checkbox" name="'' @ name fld @ ''" id="'' @ name fld
               @ ''" value="1"'' @ flag (truthy env v) '' checked''
               @ flag (disabled fld) '' disabled'' @ '' '' @ attrs fld @ ''> ''
               @ label fld @ ''</label>'']
      else
        Inr [''<input type="'' @ type_value (ftype fld) @ ''" name="'' @ name fld
               @ ''" id="'' @ name fld @ ''" value="'' @ ev
               @ ''" placeholder="'' @ placeholder fld @ ''"''
               @ flag (required fld) '' required'' @ flag (disabled fld) '' disabled''
               @ flag (readonly fld) '' readonly'' @ '' '' @ attrs fld @ ''>''])\<close>

text \<open>The list \<^verbatim>\<open>parts\<close> of a field that is not hidden.\<close>

definition render_parts ::
  "'f pyenv \<Rightarrow> ('f, 'r) FormField \<Rightarrow> 'f pyval \<Rightarrow> string \<Rightarrow> exn + string list" where
  \<open>render_parts env fld v ev =
     map_sum id
       (\<lambda>control.
          [''<div class="form-group">'']
          @ (if label fld \<noteq> [] \<and> ftype fld \<noteq> CHECKBOX
             then [''<label for="'' @ name fld @ ''">'' @ label fld @ ''</label>''] else [])
          @ control
          @ (if help_text fld \<noteq> [] then [''<small>'' @ help_text fld @ ''</small>''] else [])
          @ [''</div>''])
       (render_control env fld v ev)\<close>

definition render_field :: "'f pyenv \<Rightarrow> ('f, 'r) FormField \<Rightarrow> 'f pyval \<Rightarrow> exn + string" where
  \<open>render_field env fld v =
     (case escaped_value env v of
        Inl e \<Rightarrow> Inl e
      | Inr ev \<Rightarrow>
          if ftype fld = HIDDEN
          then Inr (''<input type="hidden" name="'' @ name fld @ ''" value="'' @ ev @ ''">'')
          else map_sum id (join newline) (render_parts env fld v ev))\<close>

text \<open>\<^verbatim>\<open>x or ""\<close>.\<close>

definition or_empty :: "'f pyenv \<Rightarrow> 'f pyval \<Rightarrow> 'f pyval" where
  "or_empty env v = (if truthy env v then v else PStr [])"

text \<open>The loop of \<^verbatim>\<open>render_html\<close> over \<^verbatim>\<open>self.fields.items()\<close>.\<close>

fun render_fields ::
  "'f pyenv \<Rightarrow> (string \<rightharpoonup> 'f pyval) \<Rightarrow> (string \<times> ('f, 'r) FormField) list \<Rightarrow> exn + string list"
  where
  "render_fields env d [] = Inr []"
| "render_fields env d ((n, fld) # rest) =
     (case render_field env fld (or_empty env (data_get d n (default_value fld))) of
        Inl e \<Rightarrow> Inl e
      | Inr part \<Rightarrow> map_sum id (\<lambda>parts. part # parts) (render_fields env d rest))"

text \<open>
  \<^verbatim>\<open>render_html(data=None)\<close>: \<^verbatim>\<open>data or {}\<close> turns an absent argument into the empty
  dictionary.
\<close>

definition render_html ::
  "'f pyenv \<Rightarrow> ('f, 'r) Form \<Rightarrow> (string \<rightharpoonup> 'f pyval) option \<Rightarrow> exn + string" where
  \<open>render_html env F data =
     (let d = (case data of None \<Rightarrow> Map.empty | Some m \<Rightarrow> m) in
      map_sum id
        (\<lambda>parts.
           join newline
             ([''<form name="'' @ form_name F @ ''" method="'' @ form_method F
                 @ ''" action="'' @ form_action F @ ''" enctype="'' @ form_enctype F @ ''">'']
              @ parts
              @ [''<button type="submit">Submit</button>'', ''</form>'']))
        (render_fields env d (form_fields F)))\<close>

subsection \<open>An instance of the builtins for the examples\<close>

text \<open>
  The examples below are evaluated in an environment that covers what they use and no
  more: a float is represented by an integer (the examples use integral numbers of small
  magnitude, which \<^verbatim>\<open>float\<close> represents exactly), \<^verbatim>\<open>float(s)\<close> reads a non-empty
  string of decimal digits and raises ValueError on any string with another character
  (no example passes a string with a sign, a fraction, an exponent or blanks),
  \<^verbatim>\<open>re.match\<close> is the prefix test, which is what it is for a pattern without
  metacharacters (no example evaluates a regular expression), and the limit on the
  digits of an int is the default one.
\<close>

definition is_digit :: "char \<Rightarrow> bool" where
  "is_digit c = (48 \<le> (of_char c :: nat) \<and> (of_char c :: nat) \<le> 57)"

definition digits_value :: "string \<Rightarrow> int" where
  "digits_value s = foldl (\<lambda>acc c. 10 * acc + (int (of_char c) - 48)) 0 s"

definition example_env :: "int pyenv" where
  "example_env =
     \<lparr> re_match = (\<lambda>p s. Inr (prefix p s)),
       float_of_str = (\<lambda>s. if s \<noteq> [] \<and> list_all is_digit s then Some (digits_value s) else None),
       float_of_int = Some,
       float_cmp = cmp_int,
       float_cmp_int = cmp_int,
       float_str = (\<lambda>x. str_int x @ ''.0''),
       float_bool = (\<lambda>x. x \<noteq> 0),
       int_max_str_digits = 4300 \<rparr>"

subsection \<open>Example forms\<close>

text \<open>
  A password field that is required and has a minimum length of 8, as
  \<^verbatim>\<open>registration_form\<close> builds it.
\<close>

definition password_field :: "(int, int pure) FormField" where
  "password_field =
     add_validator MIN_LENGTH (Val (PInt 8)) None
       ((FormField_init ''password'')\<lparr> ftype := PASSWORD, label := ''Password'', required := True \<rparr>)"

definition password_form :: "(int, int pure) Form" where
  "password_form = add_field password_field (Form_init ''register'')"

text \<open>A number field with the bounds 0 and 120.\<close>

definition age_field :: "(int, int pure) FormField" where
  "age_field =
     add_validator MAX_VALUE (Val (PInt 120)) None
       (add_validator MIN_VALUE (Val (PInt 0)) None
          ((FormField_init ''age'')\<lparr> ftype := NUMBER, label := ''Age'' \<rparr>))"

definition age_form :: "(int, int pure) Form" where
  "age_form = add_field age_field (Form_init ''person'')"

text \<open>
  A field whose custom predicate rejects every value, and the same field made required.
\<close>

definition reject_all :: "int pyval \<Rightarrow> int pure" where
  "reject_all v = Inr (PBool False)"

definition code_field :: "(int, int pure) FormField" where
  "code_field = add_validator CUSTOM (Fun reject_all) None (FormField_init ''code'')"

definition code_form :: "(int, int pure) Form" where
  "code_form = add_field code_field (Form_init ''coupon'')"

definition required_code_form :: "(int, int pure) Form" where
  "required_code_form = add_field (code_field\<lparr> required := True \<rparr>) (Form_init ''coupon'')"

text \<open>
  A custom predicate with a state, the number of its calls: it accepts the value of its
  first call only.
  \<^verbatim>\<open>
  calls = []
  def once(value):
      calls.append(value)
      return len(calls) == 1
  \<close>
\<close>

definition once :: "int pyval \<Rightarrow> (int, nat) stateful" where
  "once v calls = (Inr (PBool (calls = 0)), Suc calls)"

definition once_form :: "(int, (int, nat) stateful) Form" where
  "once_form =
     add_field (add_validator CUSTOM (Fun once) None (FormField_init ''code''))
       (Form_init ''coupon'')"

text \<open>A field that is not required, with a minimum length of 3.\<close>

definition nickname_field :: "(int, int pure) FormField" where
  "nickname_field =
     add_validator MIN_LENGTH (Val (PInt 3)) None
       ((FormField_init ''nickname'')\<lparr> label := ''Nickname'' \<rparr>)"

definition nickname_form :: "(int, int pure) Form" where
  "nickname_form = add_field nickname_field (Form_init ''profile'')"

text \<open>Two different fields with the same name.\<close>

definition contact_email :: "(int, int pure) FormField" where
  "contact_email = (FormField_init ''email'')\<lparr> label := ''Email'' \<rparr>"

definition work_email :: "(int, int pure) FormField" where
  "work_email = (FormField_init ''email'')\<lparr> ftype := EMAIL_FIELD, label := ''Work email'' \<rparr>"

text \<open>A text field with markup in its label, and one without.\<close>

definition comment_field :: "(int, int pure) FormField" where
  \<open>comment_field = (FormField_init ''comment'')\<lparr> label := ''<script>'' \<rparr>\<close>

definition plain_field :: "(int, int pure) FormField" where
  \<open>plain_field = (FormField_init ''comment'')\<lparr> label := ''Comment'' \<rparr>\<close>

text \<open>
  A select field with a placeholder option, whose value is empty, and the options \<open>0\<close>
  and \<open>1\<close>; the option \<open>0\<close> has its own selected flag set.
\<close>

definition rating_field :: "(int, int pure) FormField" where
  "rating_field =
     (FormField_init ''rating'')
       \<lparr> ftype := SELECT,
         options := [\<lparr> opt_value = [], opt_label = ''Choose'', opt_selected = False, opt_disabled = False \<rparr>,
                     \<lparr> opt_value = ''0'', opt_label = ''Poor'', opt_selected = True, opt_disabled = False \<rparr>,
                     \<lparr> opt_value = ''1'', opt_label = ''Good'', opt_selected = False, opt_disabled = False \<rparr>] \<rparr>"


subsection \<open>When a validator raises\<close>

text \<open>
  A bound (of a length or of a value) has to be a number: an int, a bool or a float.
\<close>

definition is_number :: "('f, 'r) param \<Rightarrow> bool" where
  "is_number p =
     (case p of Val (PInt i) \<Rightarrow> True | Val (PBool b) \<Rightarrow> True | Val (PFloat x) \<Rightarrow> True | _ \<Rightarrow> False)"

text \<open>
  The validators that do not raise on a value. A regular expression is evaluated only on
  a value that is not empty: the value must have a str and \<^verbatim>\<open>re.match\<close> must accept the
  pattern. A length bound is compared only for a value that is not empty: the value
  must have a str and the bound must be a number. A value bound is compared for every
  value but \<^verbatim>\<open>None\<close>: the value must be accepted by \<^verbatim>\<open>float\<close> and the bound must be a
  number. The bound of a length or value rule is formatted into the default message in
  every pass and must have a str. A custom predicate must not raise.
\<close>

definition validator_safe :: "'f pyenv \<Rightarrow> 'f pyval \<Rightarrow> ('f, 'f pure) validator \<Rightarrow> bool" where
  "validator_safe env v vd =
     (case vd of (rule, p, message) \<Rightarrow>
        (case rule of
           REQUIRED \<Rightarrow> True
         | EMAIL \<Rightarrow> truthy env v \<longrightarrow>
             (case py_str env v of Inl e \<Rightarrow> False | Inr s \<Rightarrow> \<not> isl (re_match env email_pattern s))
         | URL \<Rightarrow> truthy env v \<longrightarrow>
             (case py_str env v of Inl e \<Rightarrow> False | Inr s \<Rightarrow> \<not> isl (re_match env url_pattern s))
         | MIN_LENGTH \<Rightarrow>
             (truthy env v \<longrightarrow> \<not> isl (py_str env v) \<and> is_number p) \<and> \<not> isl (param_str env p)
         | MAX_LENGTH \<Rightarrow>
             (truthy env v \<longrightarrow> \<not> isl (py_str env v) \<and> is_number p) \<and> \<not> isl (param_str env p)
         | MIN_VALUE \<Rightarrow>
             (v \<noteq> PNone \<longrightarrow> \<not> isl (py_float env v) \<and> is_number p) \<and> \<not> isl (param_str env p)
         | MAX_VALUE \<Rightarrow>
             (v \<noteq> PNone \<longrightarrow> \<not> isl (py_float env v) \<and> is_number p) \<and> \<not> isl (param_str env p)
         | PATTERN \<Rightarrow> truthy env v \<longrightarrow>
             (case py_str env v of
                Inl e \<Rightarrow> False
              | Inr s \<Rightarrow>
                  (case p of Val (PStr rx) \<Rightarrow> \<not> isl (re_match env rx s) | _ \<Rightarrow> False))
         | CUSTOM \<Rightarrow> (case p of Fun f \<Rightarrow> \<not> isl (f v) | Val x \<Rightarrow> True)))"

text \<open>
  A field is safe when the required check short-circuits it, or all its validators are
  safe on its resolved value.
\<close>

definition field_safe ::
  "'f pyenv \<Rightarrow> (string \<rightharpoonup> 'f pyval) \<Rightarrow> string \<times> ('f, 'f pure) FormField \<Rightarrow> bool" where
  "field_safe env d nf =
     (case nf of (n, fld) \<Rightarrow>
        (let v = data_get d n (default_value fld) in
         (required fld \<and> \<not> FieldValidator_required v)
         \<or> list_all (validator_safe env v) (validators fld)))"

subsection \<open>Sequences of calls\<close>

text \<open>A sequence of \<^verbatim>\<open>add_field\<close> calls on a form, first call first.\<close>

definition add_fields :: "('f, 'r) FormField list \<Rightarrow> ('f, 'r) Form \<Rightarrow> ('f, 'r) Form" where
  "add_fields flds F = foldl (\<lambda>G fld. add_field fld G) F flds"

text \<open>
  The invariant of \<^verbatim>\<open>Form.fields\<close>: the keys are distinct, and every field is stored
  under its own name.
\<close>

definition fields_wf :: "('f, 'r) Form \<Rightarrow> bool" where
  "fields_wf F =
     (distinct (map fst (form_fields F)) \<and> list_all (\<lambda>(k, fld). name fld = k) (form_fields F))"

text \<open>
  The methods of a form as operations on what a call can change: the form, and the state
  of its custom predicates. A call takes both and returns its reply and both after the
  call. \<^verbatim>\<open>add_field\<close> assigns to \<^verbatim>\<open>self.fields\<close> and returns \<^verbatim>\<open>self\<close>. The bodies of
  \<^verbatim>\<open>validate\<close> and \<^verbatim>\<open>render_html\<close> assign to their local variables only;
  \<^verbatim>\<open>validate\<close> calls the custom predicates, \<^verbatim>\<open>render_html\<close> calls none.
\<close>

datatype ('f, 'w) call =
  AddField "('f, ('f, 'w) stateful) FormField"
  | Validate "string \<rightharpoonup> 'f pyval"
  | RenderHtml "(string \<rightharpoonup> 'f pyval) option"

datatype 'f reply = Self | Validated "exn + 'f FormData" | Rendered "exn + string"

fun call_method ::
  "'f pyenv \<Rightarrow> ('f, 'w) call \<Rightarrow> ('f, ('f, 'w) stateful) Form \<times> 'w \<Rightarrow>
   'f reply \<times> ('f, ('f, 'w) stateful) Form \<times> 'w" where
  "call_method env (AddField fld) (F, w) = (Self, (add_field fld F, w))"
| "call_method env (Validate d) (F, w) =
     (case validate_st env F d w of (r, w') \<Rightarrow> (Validated r, (F, w')))"
| "call_method env (RenderHtml data) (F, w) = (Rendered (render_html env F data), (F, w))"

fun run_calls ::
  "'f pyenv \<Rightarrow> ('f, 'w) call list \<Rightarrow> ('f, ('f, 'w) stateful) Form \<times> 'w \<Rightarrow>
   'f reply list \<times> ('f, ('f, 'w) stateful) Form \<times> 'w" where
  "run_calls env [] st = ([], st)"
| "run_calls env (c # cs) st =
     (case call_method env c st of (r, st') \<Rightarrow>
        (case run_calls env cs st' of (rs, st'') \<Rightarrow> (r # rs, st'')))"

fun reads_only :: "('f, 'w) call \<Rightarrow> bool" where
  "reads_only (AddField fld) = False"
| "reads_only (Validate d) = True"
| "reads_only (RenderHtml data) = True"

subsection \<open>The statements of the specification about rendering\<close>

text \<open>
  An option element, with the selected marker or without it: what the specification
  says a select field emits for each of its options.
\<close>

definition option_element :: "FieldOption \<Rightarrow> bool \<Rightarrow> string" where
  \<open>option_element opt marked =
     ''<option value="'' @ opt_value opt @ ''"'' @ (if marked then '' selected'' else [])
       @ ''>'' @ opt_label opt @ ''</option>''\<close>

text \<open>
  The characters that open or close a tag or an attribute value, which \<^verbatim>\<open>html.escape\<close>
  replaces.
\<close>

definition special :: "char \<Rightarrow> bool" where
  \<open>special c = (c = CHR ''<'' \<or> c = CHR ''>'' \<or> c = CHR 0x22 \<or> c = CHR 0x27)\<close>




subsection \<open>The result of validate, field by field\<close>

text \<open>
  A field is short-circuited when it is required and its resolved value fails the
  required predicate.
\<close>

definition short_circuited :: "(string \<rightharpoonup> 'f pyval) \<Rightarrow> string \<times> ('f, 'r) FormField \<Rightarrow> bool" where
  "short_circuited d nf =
     (case nf of (n, fld) \<Rightarrow>
        required fld \<and> \<not> FieldValidator_required (data_get d n (default_value fld)))"

text \<open>The name of a field with its resolved value.\<close>

definition resolved_entry ::
  "(string \<rightharpoonup> 'f pyval) \<Rightarrow> string \<times> ('f, 'r) FormField \<Rightarrow> string \<times> 'f pyval" where
  "resolved_entry d nf = (case nf of (n, fld) \<Rightarrow> (n, data_get d n (default_value fld)))"

text \<open>
  The errors of a list of validators on a value, in the order of the list, and the errors
  of one field: the required error when the field is short-circuited, and otherwise the
  errors of its validators in the order of attachment.
\<close>

definition validator_errors ::
  "'f pyenv \<Rightarrow> string \<Rightarrow> ('f, 'f pure) FormField \<Rightarrow> 'f pyval \<Rightarrow> ('f, 'f pure) validator list \<Rightarrow>
   ValidationError list" where
  "validator_errors env n fld v vds =
     concat (map (\<lambda>vd. case apply_validator env n fld v vd of Inl e \<Rightarrow> [] | Inr es \<Rightarrow> es) vds)"

definition field_errors ::
  "'f pyenv \<Rightarrow> (string \<rightharpoonup> 'f pyval) \<Rightarrow> string \<times> ('f, 'f pure) FormField \<Rightarrow> ValidationError list"
  where
  "field_errors env d nf =
     (case nf of (n, fld) \<Rightarrow>
        (let v = data_get d n (default_value fld) in
         if required fld \<and> \<not> FieldValidator_required v then [required_error n fld]
         else validator_errors env n fld v (validators fld)))"

text \<open>
  The error of a custom rule, as the specification has it: none when the parameter is not
  callable; for a callable, one error when what the predicate returns for the value is
  false, and none otherwise.
\<close>

definition custom_errors ::
  "'f pyenv \<Rightarrow> string \<Rightarrow> ('f, 'f pure) FormField \<Rightarrow> 'f pyval \<Rightarrow> ('f, 'f pure) param \<Rightarrow>
   string option \<Rightarrow> ValidationError list" where
  "custom_errors env n fld v p message =
     (case p of
        Val x \<Rightarrow> []
      | Fun f \<Rightarrow>
          (case f v of
             Inl e \<Rightarrow> []
           | Inr r \<Rightarrow>
               if truthy env r then []
               else [\<lparr> err_field = n, err_rule = ''custom'',
                       err_message =
                         message_or message (label_or_name n fld @ '' validation failed'') \<rparr>]))"

section \<open>Properties\<close>

subsection \<open>The result mapping of validate\<close>

text \<open>
  Claim C1 says that the FormData returned by validate maps every field name of the form
  to its resolved value, also for a field with validation errors. The code does so for a
  field whose attached validators fail: the password \<open>abc\<close> is too short and is
  recorded. It does not for a field that fails the required check: the \<^verbatim>\<open>continue\<close>
  of that branch skips the assignment to \<^verbatim>\<open>validated\<close>, and the submitted empty
  password is missing from the result mapping.
\<close>

theorem validate_required_failure_not_recorded:
  "validate example_env password_form [''password'' \<mapsto> PStr []] =
     Inr \<lparr> data_fields = [], valid = False,
           errors = [\<lparr> err_field = ''password'', err_rule = ''required'',
                       err_message = ''Password is required'' \<rparr>] \<rparr>
   \<and> validate example_env password_form [''password'' \<mapsto> PStr ''abc''] =
     Inr \<lparr> data_fields = [(''password'', PStr ''abc'')], valid = False,
           errors = [\<lparr> err_field = ''password'', err_rule = ''min_length'',
                       err_message = ''Minimum length is 8'' \<rparr>] \<rparr>"
  by code_simp

subsection \<open>The errors of validate\<close>

lemma record_error_field:
  "record_error env n fld vd ok = Inr es \<Longrightarrow> \<forall>e\<in>set es. err_field e = n"
  by (auto simp: record_error_def split: prod.splits sum.splits if_splits)

lemma apply_validator_field:
  "apply_validator env n fld v vd = Inr es \<Longrightarrow> \<forall>e\<in>set es. err_field e = n"
  by (auto simp: apply_validator_def split: prod.splits sum.splits dest: record_error_field)

lemma validators_loop_errors:
  "validators_loop env n fld v vds errs = Inr errs' \<Longrightarrow>
   errs' = errs @ validator_errors env n fld v vds
   \<and> (\<forall>vd\<in>set vds. \<exists>es. apply_validator env n fld v vd = Inr es)"
proof (induction vds arbitrary: errs)
  case Nil
  then show ?case by (simp add: validator_errors_def)
next
  case (Cons vd vds)
  from Cons.prems obtain es where a: "apply_validator env n fld v vd = Inr es"
    and l: "validators_loop env n fld v vds (errs @ es) = Inr errs'"
    by (auto split: sum.splits)
  from Cons.IH [OF l] a show ?case by (simp add: validator_errors_def)
qed

lemma validator_errors_field:
  "\<forall>e\<in>set (validator_errors env n fld v vds). err_field e = n"
proof (induction vds)
  case Nil
  then show ?case by (simp add: validator_errors_def)
next
  case (Cons vd vds)
  show ?case
  proof (cases "apply_validator env n fld v vd")
    case (Inl e)
    with Cons show ?thesis by (simp add: validator_errors_def)
  next
    case (Inr es)
    with Cons apply_validator_field [OF Inr] show ?thesis
      by (auto simp: validator_errors_def)
  qed
qed

lemma validator_errors_append:
  "validator_errors env n fld v (xs @ ys) =
     validator_errors env n fld v xs @ validator_errors env n fld v ys"
  by (simp add: validator_errors_def)

lemma field_errors_field: "\<forall>e\<in>set (field_errors env d (n, fld)). err_field e = n"
  using validator_errors_field [of env n fld]
  by (auto simp: field_errors_def Let_def required_error_def)

lemma fields_loop_errors:
  "fields_loop env d flds errs vd = Inr (errs', vd') \<Longrightarrow>
   errs' = errs @ concat (map (field_errors env d) flds)"
proof (induction flds arbitrary: errs vd)
  case Nil
  then show ?case by simp
next
  case (Cons a flds)
  obtain n fld where a: "a = (n, fld)" by (cases a)
  let ?v = "data_get d n (default_value fld)"
  show ?case
  proof (cases "required fld \<and> \<not> FieldValidator_required ?v")
    case True
    with Cons.prems a have
      "fields_loop env d flds (errs @ [required_error n fld]) vd = Inr (errs', vd')"
      by simp
    from Cons.IH [OF this] True a show ?thesis by (simp add: field_errors_def)
  next
    case False
    with Cons.prems a obtain errs1 where
      l: "validators_loop env n fld ?v (validators fld) errs = Inr errs1"
      and r: "fields_loop env d flds errs1 (dict_set n ?v vd) = Inr (errs', vd')"
      by (auto simp: Let_def split: sum.splits)
    from Cons.IH [OF r] validators_loop_errors [OF l] False a show ?thesis
      by (auto simp: field_errors_def Let_def)
  qed
qed

lemma fields_loop_safe_fields:
  "fields_loop env d flds errs vd = Inr (errs', vd') \<Longrightarrow> (n, fld) \<in> set flds \<Longrightarrow>
   \<not> (required fld \<and> \<not> FieldValidator_required (data_get d n (default_value fld))) \<Longrightarrow>
   \<forall>x\<in>set (validators fld).
      \<exists>es. apply_validator env n fld (data_get d n (default_value fld)) x = Inr es"
proof (induction flds arbitrary: errs vd)
  case Nil
  then show ?case by simp
next
  case (Cons a flds)
  obtain m g where a: "a = (m, g)" by (cases a)
  let ?v = "data_get d m (default_value g)"
  show ?case
  proof (cases "required g \<and> \<not> FieldValidator_required ?v")
    case True
    with Cons.prems a have
      r: "fields_loop env d flds (errs @ [required_error m g]) vd = Inr (errs', vd')"
      and mem: "(n, fld) \<in> set flds"
      by auto
    from Cons.IH [OF r mem Cons.prems(3)] show ?thesis .
  next
    case False
    with Cons.prems a obtain errs1 where
      l: "validators_loop env m g ?v (validators g) errs = Inr errs1"
      and r: "fields_loop env d flds errs1 (dict_set m ?v vd) = Inr (errs', vd')"
      by (auto simp: Let_def split: sum.splits)
    show ?thesis
    proof (cases "(n, fld) = (m, g)")
      case True
      with validators_loop_errors [OF l] show ?thesis by simp
    next
      case False
      with Cons.prems a have "(n, fld) \<in> set flds" by auto
      from Cons.IH [OF r this Cons.prems(3)] show ?thesis .
    qed
  qed
qed

lemma validate_errors:
  assumes "validate env F d = Inr fd"
  shows "errors fd = concat (map (field_errors env d) (form_fields F))"
proof -
  from assms obtain errs vd where
    l: "fields_loop env d (form_fields F) [] [] = Inr (errs, vd)" and fd: "errors fd = errs"
    by (auto simp: validate_def split: sum.splits prod.splits)
  from fields_loop_errors [OF l] fd show ?thesis by simp
qed

lemma validate_safe_fields:
  assumes "validate env F d = Inr fd" and "(n, fld) \<in> set (form_fields F)"
    and "\<not> short_circuited d (n, fld)" and "vd \<in> set (validators fld)"
  shows "\<exists>es. apply_validator env n fld (data_get d n (default_value fld)) vd = Inr es"
proof -
  from assms(1) obtain errs vl where
    l: "fields_loop env d (form_fields F) [] [] = Inr (errs, vl)"
    by (auto simp: validate_def split: sum.splits prod.splits)
  from assms(3) have
    "\<not> (required fld \<and> \<not> FieldValidator_required (data_get d n (default_value fld)))"
    by (simp add: short_circuited_def)
  from fields_loop_safe_fields [OF l assms(2) this] assms(4) show ?thesis by blast
qed

lemma validate_errors_split:
  assumes "validate env F d = Inr fd"
    and "form_fields F = fs1 @ (n, fld) # fs2"
    and "validators fld = vs1 @ vd # vs2"
    and "\<not> short_circuited d (n, fld)"
  shows "\<exists>es. apply_validator env n fld (data_get d n (default_value fld)) vd = Inr es
       \<and> errors fd =
           concat (map (field_errors env d) fs1)
           @ validator_errors env n fld (data_get d n (default_value fld)) vs1
           @ es
           @ validator_errors env n fld (data_get d n (default_value fld)) vs2
           @ concat (map (field_errors env d) fs2)"
proof -
  let ?v = "data_get d n (default_value fld)"
  from assms(2) have mem: "(n, fld) \<in> set (form_fields F)" by simp
  from assms(3) have "vd \<in> set (validators fld)" by simp
  from validate_safe_fields [OF assms(1) mem assms(4) this]
  obtain es where es: "apply_validator env n fld ?v vd = Inr es" by blast
  from assms(4) have "field_errors env d (n, fld) = validator_errors env n fld ?v (validators fld)"
    by (auto simp: field_errors_def short_circuited_def Let_def)
  with assms(3) es have "field_errors env d (n, fld) =
      validator_errors env n fld ?v vs1 @ es @ validator_errors env n fld ?v vs2"
    by (simp add: validator_errors_def)
  with validate_errors [OF assms(1)] assms(2) es show ?thesis by simp
qed

lemma validate_errors_short_circuit:
  assumes "validate env F d = Inr fd"
    and "form_fields F = fs1 @ (n, fld) # fs2"
    and "short_circuited d (n, fld)"
  shows "errors fd =
           concat (map (field_errors env d) fs1) @ [required_error n fld]
           @ concat (map (field_errors env d) fs2)"
proof -
  from assms(3) have "field_errors env d (n, fld) = [required_error n fld]"
    by (auto simp: field_errors_def short_circuited_def Let_def)
  with validate_errors [OF assms(1)] assms(2) show ?thesis by simp
qed

lemma field_errors_other:
  "m \<noteq> n \<Longrightarrow> filter (\<lambda>e. err_field e = n) (field_errors env d (m, g)) = []"
  using field_errors_field [of env d m g] by (auto simp: filter_empty_conv)

lemma field_errors_own:
  "filter (\<lambda>e. err_field e = n) (field_errors env d (n, fld)) = field_errors env d (n, fld)"
  using field_errors_field [of env d n fld] by (auto simp: filter_id_conv)

lemma filter_field_errors:
  "distinct (map fst flds) \<Longrightarrow> (n, fld) \<in> set flds \<Longrightarrow>
   filter (\<lambda>e. err_field e = n) (concat (map (field_errors env d) flds)) =
     field_errors env d (n, fld)"
proof (induction flds)
  case Nil
  then show ?case by simp
next
  case (Cons a flds)
  obtain m g where a: "a = (m, g)" by (cases a)
  show ?case
  proof (cases "(n, fld) = (m, g)")
    case True
    with Cons.prems a have "\<forall>x\<in>set flds. fst x \<noteq> n" by auto
    then have "filter (\<lambda>e. err_field e = n) (concat (map (field_errors env d) flds)) = []"
    proof (induction flds)
      case Nil
      then show ?case by simp
    next
      case (Cons b flds)
      obtain k h where b: "b = (k, h)" by (cases b)
      with Cons field_errors_other [of k n env d h] show ?case by simp
    qed
    with True a field_errors_own [of n env d fld] show ?thesis by simp
  next
    case False
    with Cons.prems a have mem: "(n, fld) \<in> set flds" and dist: "distinct (map fst flds)"
      and mn: "m \<noteq> n"
      by (auto simp: image_iff)
    from Cons.IH [OF dist mem] a field_errors_other [OF mn, of env d g] show ?thesis by simp
  qed
qed

text \<open>
  Claim C4: a required field whose resolved value fails the required predicate gets exactly
  one error, with the rule \<open>required\<close>, whatever validators are attached to it. First
  conjunct: in the FormData that validate returns, the errors of that field are that one
  error (the keys of \<^verbatim>\<open>Form.fields\<close> are distinct, as the keys of a dictionary are).
  Second conjunct: the attached validators are skipped, so that on a form with this
  field alone validate returns this result for every list of validators, also for
  validators that would raise.
\<close>

theorem required_short_circuit:
  assumes "distinct (map fst (form_fields F))"
    and "(n, fld) \<in> set (form_fields F)"
    and "required fld"
    and "\<not> FieldValidator_required (data_get d n (default_value fld))"
    and "validate env F d = Inr fd"
  shows "filter (\<lambda>e. err_field e = n) (errors fd) =
           [\<lparr> err_field = n, err_rule = ''required'',
              err_message = label_or_name n fld @ '' is required'' \<rparr>]
       \<and> validate env (F\<lparr> form_fields := [(n, fld)] \<rparr>) d =
           Inr \<lparr> data_fields = [], valid = False,
                 errors = [\<lparr> err_field = n, err_rule = ''required'',
                             err_message = label_or_name n fld @ '' is required'' \<rparr>] \<rparr>"
proof -
  from assms(3) assms(4) have "field_errors env d (n, fld) = [required_error n fld]"
    by (simp add: field_errors_def)
  with validate_errors [OF assms(5)] filter_field_errors [OF assms(1) assms(2), of env d]
  have "filter (\<lambda>e. err_field e = n) (errors fd) =
           [\<lparr> err_field = n, err_rule = ''required'',
              err_message = label_or_name n fld @ '' is required'' \<rparr>]"
    by (simp add: required_error_def)
  moreover from assms(3) assms(4)
  have "validate env (F\<lparr> form_fields := [(n, fld)] \<rparr>) d =
           Inr \<lparr> data_fields = [], valid = False,
                 errors = [\<lparr> err_field = n, err_rule = ''required'',
                             err_message = label_or_name n fld @ '' is required'' \<rparr>] \<rparr>"
    by (simp add: validate_def required_error_def)
  ultimately show ?thesis by simp
qed

theorem required_short_circuit_witness:
  "distinct (map fst (form_fields password_form))
   \<and> (''password'', password_field) \<in> set (form_fields password_form)
   \<and> required password_field
   \<and> \<not> FieldValidator_required
         (data_get [''password'' \<mapsto> PStr [] :: int pyval] ''password'' (default_value password_field))
   \<and> filter (\<lambda>e. err_field e = ''password'')
        (errors \<lparr> data_fields = [] :: (string \<times> int pyval) list, valid = False,
                  errors = [\<lparr> err_field = ''password'', err_rule = ''required'',
                              err_message = ''Password is required'' \<rparr>] \<rparr>) =
       [\<lparr> err_field = ''password'', err_rule = ''required'',
          err_message = label_or_name ''password'' password_field @ '' is required'' \<rparr>]"
proof -
  have h1: "distinct (map fst (form_fields password_form))" by code_simp
  have h2: "(''password'', password_field) \<in> set (form_fields password_form)"
    by (simp add: password_form_def add_field_def Form_init_def password_field_def
        add_validator_def FormField_init_def)
  have h3: "required password_field" by code_simp
  have h4: "\<not> FieldValidator_required
      (data_get [''password'' \<mapsto> PStr [] :: int pyval] ''password'' (default_value password_field))"
    by code_simp
  have h5: "validate example_env password_form [''password'' \<mapsto> PStr []] =
      Inr \<lparr> data_fields = [], valid = False,
            errors = [\<lparr> err_field = ''password'', err_rule = ''required'',
                        err_message = ''Password is required'' \<rparr>] \<rparr>"
    by code_simp
  from required_short_circuit [OF h1 h2 h3 h4 h5] h1 h2 h3 h4 show ?thesis by simp
qed

subsection \<open>Exceptions that escape validate\<close>

lemma int_cmp_param_safe: "isl (int_cmp_param env k p) \<longleftrightarrow> \<not> is_number p"
  by (cases "(env, k, p)" rule: int_cmp_param.cases) (simp_all add: is_number_def)

lemma float_cmp_param_safe: "isl (float_cmp_param env x p) \<longleftrightarrow> \<not> is_number p"
  by (cases "(env, x, p)" rule: float_cmp_param.cases) (simp_all add: is_number_def)

lemma isl_map_sum: "isl (map_sum f g s) = isl s"
  by (cases s) simp_all

lemma default_msg_safe:
  "isl (default_msg env n fld rule p) \<longleftrightarrow>
     (rule = MIN_LENGTH \<or> rule = MAX_LENGTH \<or> rule = MIN_VALUE \<or> rule = MAX_VALUE)
     \<and> isl (param_str env p)"
  by (cases rule) (simp_all add: default_msg_def isl_map_sum)

lemma record_error_safe:
  "isl (record_error env n fld (rule, p, message) ok) = isl (default_msg env n fld rule p)"
  by (simp add: record_error_def split: sum.splits)

lemma apply_validator_raises:
  "isl (apply_validator env n fld v (rule, p, message)) \<longleftrightarrow>
     isl (check_rule env v rule p) \<or> isl (default_msg env n fld rule p)"
  by (cases "check_rule env v rule p") (simp_all add: apply_validator_def record_error_safe)

lemma check_rule_safe:
  "isl (check_rule env v rule p) \<or> isl (default_msg env n fld rule p)
     \<longleftrightarrow> \<not> validator_safe env v (rule, p, message)"
proof (cases rule)
  case REQUIRED
  then show ?thesis by (simp add: check_rule_def validator_safe_def default_msg_def)
next
  case EMAIL
  then show ?thesis
    by (cases "py_str env v")
      (auto simp: check_rule_def validator_safe_def default_msg_def FieldValidator_email_def)
next
  case URL
  then show ?thesis
    by (cases "py_str env v")
      (auto simp: check_rule_def validator_safe_def default_msg_def FieldValidator_url_def)
next
  case MIN_LENGTH
  then show ?thesis
    by (cases "py_str env v")
      (auto simp: check_rule_def validator_safe_def default_msg_def isl_map_sum
        FieldValidator_min_length_def int_cmp_param_safe)
next
  case MAX_LENGTH
  then show ?thesis
    by (cases "py_str env v")
      (auto simp: check_rule_def validator_safe_def default_msg_def isl_map_sum
        FieldValidator_max_length_def int_cmp_param_safe)
next
  case MIN_VALUE
  then show ?thesis
    by (cases "py_float env v")
      (auto simp: check_rule_def validator_safe_def default_msg_def isl_map_sum
        FieldValidator_min_value_def float_cmp_param_safe)
next
  case MAX_VALUE
  then show ?thesis
    by (cases "py_float env v")
      (auto simp: check_rule_def validator_safe_def default_msg_def isl_map_sum
        FieldValidator_max_value_def float_cmp_param_safe)
next
  case PATTERN
  then show ?thesis
    by (cases "py_str env v")
      (auto simp: check_rule_def validator_safe_def default_msg_def FieldValidator_pattern_def
        split: param.splits pyval.splits)
next
  case CUSTOM
  then show ?thesis
    by (auto simp: check_rule_def validator_safe_def default_msg_def isl_map_sum
        split: param.splits)
qed

lemma apply_validator_safe: "isl (apply_validator env n fld v vd) \<longleftrightarrow> \<not> validator_safe env v vd"
proof -
  obtain rule p message where vd: "vd = (rule, p, message)" by (cases vd)
  with apply_validator_raises [of env n fld v rule p message]
    check_rule_safe [of env v rule p n fld message]
  show ?thesis by simp
qed

lemma validators_loop_safe:
  "isl (validators_loop env n fld v vds errs) \<longleftrightarrow> \<not> list_all (validator_safe env v) vds"
proof (induction vds arbitrary: errs)
  case Nil
  then show ?case by simp
next
  case (Cons vd vds)
  show ?case
  proof (cases "apply_validator env n fld v vd")
    case (Inl e)
    with apply_validator_safe [of env n fld v vd] show ?thesis by simp
  next
    case (Inr es)
    with apply_validator_safe [of env n fld v vd] Cons.IH [of "errs @ es"] show ?thesis by simp
  qed
qed

lemma fields_loop_safe:
  "isl (fields_loop env d flds errs vd) \<longleftrightarrow> \<not> list_all (field_safe env d) flds"
proof (induction flds arbitrary: errs vd)
  case Nil
  then show ?case by simp
next
  case (Cons a flds)
  obtain n fld where a: "a = (n, fld)" by (cases a)
  let ?v = "data_get d n (default_value fld)"
  show ?case
  proof (cases "required fld \<and> \<not> FieldValidator_required ?v")
    case True
    with Cons.IH a show ?thesis by (simp add: field_safe_def)
  next
    case False
    show ?thesis
    proof (cases "validators_loop env n fld ?v (validators fld) errs")
      case (Inl e)
      with validators_loop_safe [of env n fld ?v "validators fld" errs] False a
      show ?thesis by (auto simp: field_safe_def Let_def)
    next
      case (Inr errs1)
      with validators_loop_safe [of env n fld ?v "validators fld" errs] False a
        Cons.IH [of errs1 "dict_set n ?v vd"]
      show ?thesis by (auto simp: field_safe_def Let_def)
    qed
  qed
qed

text \<open>
  Claim C2 says that validate returns a FormData for every form and all submitted data,
  and that no exception escapes it. The code has no exception handler: the string
  \<open>abc\<close> submitted for a field with a \<open>min_value\<close> rule reaches \<^verbatim>\<open>float(value)\<close>, and
  the ValueError leaves validate.
\<close>

theorem validate_raises_counterexample:
  "validate example_env age_form [''age'' \<mapsto> PStr ''abc''] = Inl ValueError"
  by code_simp

text \<open>
  Claim C2 as amended: validate returns a FormData exactly when every field of the form
  is safe: the required check short-circuits it, or none of its validators raises on its
  resolved value. What raises is listed by \<open>validator_safe\<close>: a value that
  \<^verbatim>\<open>float\<close> rejects under a value rule, a bound that is not a number, an int (the value
  under a length or pattern rule, or the bound in the default message) with more digits
  than the limit of the conversion to a str, a pattern that is not a str or that
  \<^verbatim>\<open>re.match\<close> rejects, and a custom predicate that raises. In every other case an
  exception escapes.
\<close>

theorem validate_returns_iff:
  "(\<exists>fd. validate env F d = Inr fd) \<longleftrightarrow> list_all (field_safe env d) (form_fields F)"
proof -
  have "(\<exists>fd. validate env F d = Inr fd) \<longleftrightarrow> \<not> isl (fields_loop env d (form_fields F) [] [])"
    by (cases "fields_loop env d (form_fields F) [] []") (auto simp: validate_def)
  with fields_loop_safe [of env d "form_fields F" "[]" "[]"] show ?thesis by simp
qed

theorem validate_returns_iff_witness:
  "list_all (field_safe example_env [''age'' \<mapsto> PInt 150]) (form_fields age_form)
   \<and> (\<exists>fd. validate example_env age_form [''age'' \<mapsto> PInt 150] = Inr fd)
   \<and> \<not> list_all (field_safe example_env [''age'' \<mapsto> PStr ''abc'']) (form_fields age_form)
   \<and> \<not> (\<exists>fd. validate example_env age_form [''age'' \<mapsto> PStr ''abc''] = Inr fd)"
proof -
  have h1: "list_all (field_safe example_env [''age'' \<mapsto> PInt 150]) (form_fields age_form)"
    by code_simp
  have h2: "\<not> list_all (field_safe example_env [''age'' \<mapsto> PStr ''abc'']) (form_fields age_form)"
    by code_simp
  from h1 h2 validate_returns_iff [of example_env age_form "[''age'' \<mapsto> PInt 150]"]
    validate_returns_iff [of example_env age_form "[''age'' \<mapsto> PStr ''abc'']"]
  show ?thesis by simp
qed

subsection \<open>Empty values\<close>

lemma param_str_raises:
  "isl (param_str env p) \<longleftrightarrow> (\<exists>i. p = Val (PInt i) \<and> int_str_raises env i)"
proof (cases p)
  case (Val x)
  then show ?thesis by (cases x) simp_all
next
  case (Fun f)
  then show ?thesis by simp
qed

lemma apply_validator_pattern_falsy:
  assumes "rule = EMAIL \<or> rule = URL \<or> rule = PATTERN" and "\<not> truthy env v"
  shows "apply_validator env n fld v (rule, p, message) = Inr []"
  using assms
  by (auto simp: apply_validator_def check_rule_def record_error_def default_msg_def
      FieldValidator_email_def FieldValidator_url_def FieldValidator_pattern_def)

lemma apply_validator_length_falsy:
  assumes "rule = MIN_LENGTH \<or> rule = MAX_LENGTH" and "\<not> truthy env v"
  shows "apply_validator env n fld v (rule, p, message) = map_sum id (\<lambda>s. []) (param_str env p)"
  using assms
  by (cases "param_str env p")
    (auto simp: apply_validator_def check_rule_def record_error_def default_msg_def
      FieldValidator_min_length_def FieldValidator_max_length_def)

lemma apply_validator_bound_none:
  assumes "rule = MIN_VALUE \<or> rule = MAX_VALUE"
  shows "apply_validator env n fld PNone (rule, p, message) = map_sum id (\<lambda>s. []) (param_str env p)"
  using assms
  by (cases "param_str env p")
    (auto simp: apply_validator_def check_rule_def record_error_def default_msg_def
      FieldValidator_min_value_def FieldValidator_max_value_def)

lemma apply_validator_bound_empty:
  assumes "rule = MIN_VALUE \<or> rule = MAX_VALUE" and "float_of_str env [] = None"
  shows "apply_validator env n fld (PStr []) (rule, p, message) = Inl ValueError"
  using assms
  by (auto simp: apply_validator_def check_rule_def FieldValidator_min_value_def
      FieldValidator_max_value_def)

lemma apply_validator_empty_no_error:
  assumes "rule \<noteq> REQUIRED" and "rule \<noteq> CUSTOM" and "v = PNone \<or> v = PStr []"
    and "float_of_str env [] = None"
    and "apply_validator env n fld v (rule, p, message) = Inr es"
  shows "es = []"
proof -
  from assms(3) have falsy: "\<not> truthy env v" by auto
  from assms(1) assms(2) consider
    "rule = EMAIL \<or> rule = URL \<or> rule = PATTERN"
    | "rule = MIN_LENGTH \<or> rule = MAX_LENGTH"
    | "rule = MIN_VALUE \<or> rule = MAX_VALUE"
    by (cases rule) simp_all
  then show ?thesis
  proof cases
    case 1
    from apply_validator_pattern_falsy [OF 1 falsy, of n fld p message] assms(5) show ?thesis
      by simp
  next
    case 2
    from apply_validator_length_falsy [OF 2 falsy, of n fld p message] assms(5) show ?thesis
      by (cases "param_str env p") simp_all
  next
    case 3
    show ?thesis
    proof (cases "v = PNone")
      case True
      with apply_validator_bound_none [OF 3, of env n fld p message] assms(5) show ?thesis
        by (cases "param_str env p") simp_all
    next
      case False
      with assms(3) have "v = PStr []" by simp
      with apply_validator_bound_empty [OF 3 assms(4), of n fld p message] assms(5) show ?thesis
        by simp
    qed
  qed
qed

text \<open>
  Claim C6 says that no validator other than required contributes an error on an absent
  or empty value, the custom rule included. The code calls a custom predicate on the
  value as it is: a predicate that rejects every value contributes an error for a field
  that was not submitted and has no default.
\<close>

theorem custom_on_absent_counterexample:
  "validate example_env code_form Map.empty =
     Inr \<lparr> data_fields = [(''code'', PNone)], valid = False,
           errors = [\<lparr> err_field = ''code'', err_rule = ''custom'',
                       err_message = ''code validation failed'' \<rparr>] \<rparr>"
  by code_simp

text \<open>
  Claim C6 as amended: for a rule other than required and custom, and a value that is
  \<^verbatim>\<open>None\<close> or the empty string, the validator contributes no error, whatever its
  parameter and message (\<^verbatim>\<open>float("")\<close> raises ValueError, which is assumed of the
  environment). Email, url and pattern are valid without raising. Min_length and
  max_length, and min_value and max_value on \<^verbatim>\<open>None\<close>, are valid; their default
  message is formatted all the same, which raises ValueError when the bound is an int
  with more digits than the limit of the conversion to a str, and nothing else. Min_value
  and max_value on the empty string raise the ValueError of \<^verbatim>\<open>float("")\<close>. Last
  conjunct: in the FormData that validate returns, the errors are those of the fields
  before, of the other validators of the field (or its required error), and of the
  fields after: the validator has none.
\<close>

theorem empty_value_exemption:
  assumes "rule \<noteq> REQUIRED" and "rule \<noteq> CUSTOM" and "v = PNone \<or> v = PStr []"
    and "float_of_str env [] = None"
  shows "(rule = EMAIL \<or> rule = URL \<or> rule = PATTERN \<longrightarrow>
            apply_validator env n fld v (rule, p, message) = Inr [])
       \<and> (rule = MIN_LENGTH \<or> rule = MAX_LENGTH
            \<or> (rule = MIN_VALUE \<or> rule = MAX_VALUE) \<and> v = PNone \<longrightarrow>
            apply_validator env n fld v (rule, p, message) =
              (if \<exists>i. p = Val (PInt i) \<and> int_str_raises env i then Inl ValueError else Inr []))
       \<and> ((rule = MIN_VALUE \<or> rule = MAX_VALUE) \<and> v = PStr [] \<longrightarrow>
            apply_validator env n fld v (rule, p, message) = Inl ValueError)
       \<and> (validate env F d = Inr fd \<and> form_fields F = fs1 @ (n, fld) # fs2
            \<and> validators fld = vs1 @ (rule, p, message) # vs2
            \<and> data_get d n (default_value fld) = v \<longrightarrow>
            errors fd =
              concat (map (field_errors env d) fs1)
              @ (if short_circuited d (n, fld) then [required_error n fld]
                 else validator_errors env n fld v vs1 @ validator_errors env n fld v vs2)
              @ concat (map (field_errors env d) fs2))"
proof -
  from assms(3) have falsy: "\<not> truthy env v" by auto
  have a: "apply_validator env n fld v (rule, p, message) = Inr []"
    if "rule = EMAIL \<or> rule = URL \<or> rule = PATTERN"
    using apply_validator_pattern_falsy [OF that falsy] .
  have ps: "map_sum id (\<lambda>s. []) (param_str env p) =
      (if \<exists>i. p = Val (PInt i) \<and> int_str_raises env i then Inl ValueError
       else (Inr [] :: exn + ValidationError list))"
  proof (cases p)
    case (Val x)
    then show ?thesis by (cases x) simp_all
  next
    case (Fun f)
    then show ?thesis by simp
  qed
  have b: "apply_validator env n fld v (rule, p, message) =
      (if \<exists>i. p = Val (PInt i) \<and> int_str_raises env i then Inl ValueError else Inr [])"
    if "rule = MIN_LENGTH \<or> rule = MAX_LENGTH \<or> (rule = MIN_VALUE \<or> rule = MAX_VALUE) \<and> v = PNone"
  proof (cases "rule = MIN_LENGTH \<or> rule = MAX_LENGTH")
    case True
    from apply_validator_length_falsy [OF True falsy, of n fld p message] ps show ?thesis
      by simp
  next
    case False
    with that have r: "rule = MIN_VALUE \<or> rule = MAX_VALUE" and v: "v = PNone" by auto
    from apply_validator_bound_none [OF r, of env n fld p message] ps v show ?thesis
      by simp
  qed
  have c: "apply_validator env n fld v (rule, p, message) = Inl ValueError"
    if "(rule = MIN_VALUE \<or> rule = MAX_VALUE) \<and> v = PStr []"
    using that apply_validator_bound_empty [OF _ assms(4), of rule n fld p message] by simp
  have d: "errors fd =
      concat (map (field_errors env d) fs1)
      @ (if short_circuited d (n, fld) then [required_error n fld]
         else validator_errors env n fld v vs1 @ validator_errors env n fld v vs2)
      @ concat (map (field_errors env d) fs2)"
    if v: "validate env F d = Inr fd" and f: "form_fields F = fs1 @ (n, fld) # fs2"
      and vs: "validators fld = vs1 @ (rule, p, message) # vs2"
      and dv: "data_get d n (default_value fld) = v"
  proof (cases "short_circuited d (n, fld)")
    case True
    with validate_errors_short_circuit [OF v f True] show ?thesis by simp
  next
    case False
    from validate_errors_split [OF v f vs False] dv obtain es where
      es: "apply_validator env n fld v (rule, p, message) = Inr es"
      and e: "errors fd =
        concat (map (field_errors env d) fs1) @ validator_errors env n fld v vs1 @ es
        @ validator_errors env n fld v vs2 @ concat (map (field_errors env d) fs2)"
      by auto
    from apply_validator_empty_no_error [OF assms(1) assms(2) assms(3) assms(4) es] e False
    show ?thesis by simp
  qed
  from a b c d show ?thesis by blast
qed

theorem empty_value_exemption_witness:
  "MIN_LENGTH \<noteq> REQUIRED \<and> MIN_LENGTH \<noteq> CUSTOM
   \<and> float_of_str example_env [] = None
   \<and> apply_validator example_env ''nickname'' nickname_field (PStr []) (MIN_LENGTH, Val (PInt 3), None)
       = Inr []
   \<and> form_fields nickname_form = [] @ (''nickname'', nickname_field) # []
   \<and> validators nickname_field = [] @ (MIN_LENGTH, Val (PInt 3), None) # []
   \<and> data_get [''nickname'' \<mapsto> PStr []] ''nickname'' (default_value nickname_field) = PStr []
   \<and> \<not> short_circuited [''nickname'' \<mapsto> PStr [] :: int pyval] (''nickname'', nickname_field)
   \<and> errors \<lparr> data_fields = [(''nickname'', PStr [] :: int pyval)], valid = True, errors = [] \<rparr> = []"
proof -
  have h0: "float_of_str example_env [] = None" by code_simp
  have h1: "validate example_env nickname_form [''nickname'' \<mapsto> PStr []] =
      Inr \<lparr> data_fields = [(''nickname'', PStr [])], valid = True, errors = [] \<rparr>"
    by code_simp
  have h2: "form_fields nickname_form = [] @ (''nickname'', nickname_field) # []"
    by (simp add: nickname_form_def add_field_def Form_init_def nickname_field_def
        add_validator_def FormField_init_def)
  have h3: "validators nickname_field = [] @ (MIN_LENGTH, Val (PInt 3), None) # []"
    by (simp add: nickname_field_def add_validator_def FormField_init_def)
  have h4: "data_get [''nickname'' \<mapsto> PStr [] :: int pyval] ''nickname'' (default_value nickname_field) = PStr []"
    by (simp add: data_get_def)
  have h5: "\<not> short_circuited [''nickname'' \<mapsto> PStr [] :: int pyval] (''nickname'', nickname_field)"
    by (simp add: short_circuited_def nickname_field_def add_validator_def FormField_init_def)
  have h6: "\<not> int_str_raises example_env 3" by code_simp
  from empty_value_exemption [of MIN_LENGTH "PStr []" example_env "''nickname''" nickname_field
      "Val (PInt 3)" None nickname_form "[''nickname'' \<mapsto> PStr []]" _ "[]" "[]" "[]" "[]"]
    h0 h1 h2 h3 h4 h5 h6
  show ?thesis by simp
qed

subsection \<open>The custom rule\<close>

lemma apply_validator_custom:
  "apply_validator env n fld v (CUSTOM, p, message) =
     (case p of
        Val x \<Rightarrow> Inr []
      | Fun f \<Rightarrow> (case f v of Inl e \<Rightarrow> Inl e | Inr r \<Rightarrow> Inr (custom_errors env n fld v p message)))"
  by (auto simp: apply_validator_def check_rule_def record_error_def default_msg_def
      custom_errors_def split: param.splits sum.splits)

text \<open>
  Claim C9 says that the predicate of a custom rule is called on the resolved value and
  that an error is recorded exactly when it returns false. A required field whose value
  fails the required check is short-circuited: validate does not call the predicate, and
  records no error of the custom rule although the predicate returns false on the value.
\<close>

theorem custom_skipped_counterexample:
  "reject_all PNone = Inr (PBool False)
   \<and> validate example_env required_code_form Map.empty =
     Inr \<lparr> data_fields = [], valid = False,
           errors = [\<lparr> err_field = ''code'', err_rule = ''required'',
                       err_message = ''code is required'' \<rparr>] \<rparr>"
  by code_simp

text \<open>
  Claim C9 as amended: take a field with a custom rule among its validators, in a form
  for which validate returns a FormData. When the required check short-circuits the
  field, the predicate is not called and the only error of the field is the required
  one. Otherwise the errors of the result are those of the fields before, of the
  validators attached before the custom rule, of the custom rule, of the validators
  attached after it, and of the fields after; the errors of the custom rule are none when
  its parameter is not callable, and for a callable, which was called on the resolved
  value and did not raise, one error when what it returned is false (the code tests
  \<^verbatim>\<open>not valid\<close>, so a result that is \<^verbatim>\<open>None\<close>, 0 or empty counts as false) and none
  otherwise.
\<close>

theorem custom_rule_in_validate:
  assumes "validate env F d = Inr fd"
    and "form_fields F = fs1 @ (n, fld) # fs2"
    and "validators fld = vs1 @ (CUSTOM, p, message) # vs2"
    and "v = data_get d n (default_value fld)"
  shows "(short_circuited d (n, fld) \<longrightarrow>
            errors fd =
              concat (map (field_errors env d) fs1) @ [required_error n fld]
              @ concat (map (field_errors env d) fs2))
       \<and> (\<not> short_circuited d (n, fld) \<longrightarrow>
            (\<forall>f. p = Fun f \<longrightarrow> \<not> isl (f v))
            \<and> errors fd =
                concat (map (field_errors env d) fs1)
                @ validator_errors env n fld v vs1
                @ custom_errors env n fld v p message
                @ validator_errors env n fld v vs2
                @ concat (map (field_errors env d) fs2))"
proof (cases "short_circuited d (n, fld)")
  case True
  with validate_errors_short_circuit [OF assms(1) assms(2) True] show ?thesis by simp
next
  case False
  from validate_errors_split [OF assms(1) assms(2) assms(3) False] assms(4) obtain es where
    es: "apply_validator env n fld v (CUSTOM, p, message) = Inr es"
    and e: "errors fd =
      concat (map (field_errors env d) fs1) @ validator_errors env n fld v vs1 @ es
      @ validator_errors env n fld v vs2 @ concat (map (field_errors env d) fs2)"
    by auto
  from es have "es = custom_errors env n fld v p message" and "\<forall>f. p = Fun f \<longrightarrow> \<not> isl (f v)"
    by (auto simp: apply_validator_custom custom_errors_def split: param.splits sum.splits)
  with e False show ?thesis by simp
qed

theorem custom_rule_in_validate_witness:
  "form_fields code_form = [] @ (''code'', code_field) # []
   \<and> validators code_field = [] @ (CUSTOM, Fun reject_all, None) # []
   \<and> \<not> short_circuited [''code'' \<mapsto> PStr ''x'' :: int pyval] (''code'', code_field)
   \<and> \<not> isl (reject_all (PStr ''x''))
   \<and> errors \<lparr> data_fields = [(''code'', PStr ''x'' :: int pyval)], valid = False,
               errors = [\<lparr> err_field = ''code'', err_rule = ''custom'',
                           err_message = ''code validation failed'' \<rparr>] \<rparr> =
       custom_errors example_env ''code'' code_field (PStr ''x'') (Fun reject_all) None"
proof -
  have h1: "validate example_env code_form [''code'' \<mapsto> PStr ''x''] =
      Inr \<lparr> data_fields = [(''code'', PStr ''x'')], valid = False,
            errors = [\<lparr> err_field = ''code'', err_rule = ''custom'',
                        err_message = ''code validation failed'' \<rparr>] \<rparr>"
    by code_simp
  have h2: "form_fields code_form = [] @ (''code'', code_field) # []"
    by (simp add: code_form_def add_field_def Form_init_def code_field_def
        add_validator_def FormField_init_def)
  have h3: "validators code_field = [] @ (CUSTOM, Fun reject_all, None) # []"
    by (simp add: code_field_def add_validator_def FormField_init_def)
  have h4: "\<not> short_circuited [''code'' \<mapsto> PStr ''x'' :: int pyval] (''code'', code_field)"
    by (simp add: short_circuited_def code_field_def add_validator_def FormField_init_def)
  from custom_rule_in_validate [OF h1 h2 h3 refl] h2 h3 h4 show ?thesis
    by (simp add: validator_errors_def data_get_def)
qed

subsection \<open>Adding fields\<close>

lemma dict_set_map_fst:
  "map fst (dict_set k v d) = (if k \<in> fst ` set d then map fst d else map fst d @ [k])"
proof (induction d)
  case Nil
  then show ?case by simp
next
  case (Cons a d)
  obtain k' v' where a: "a = (k', v')" by (cases a)
  show ?case
  proof (cases "k' = k")
    case True
    with a show ?thesis by simp
  next
    case False
    with a Cons show ?thesis by simp
  qed
qed

lemma dict_set_keys: "fst ` set (dict_set k v d) = insert k (fst ` set d)"
proof -
  have "fst ` set (dict_set k v d) = set (map fst (dict_set k v d))" by simp
  also have "\<dots> = insert k (fst ` set d)"
    unfolding dict_set_map_fst by auto
  finally show ?thesis .
qed

lemma dict_set_distinct: "distinct (map fst d) \<Longrightarrow> distinct (map fst (dict_set k v d))"
proof (induction d)
  case Nil
  then show ?case by simp
next
  case (Cons a d)
  obtain k' v' where a: "a = (k', v')" by (cases a)
  with Cons dict_set_keys [of k v d] show ?case by auto
qed

lemma dict_set_map_of: "map_of (dict_set k v d) = (map_of d)(k \<mapsto> v)"
  by (induction d) (auto simp: fun_eq_iff)

lemma dict_set_entries: "set (dict_set k v d) \<subseteq> insert (k, v) (set d)"
  by (induction d) (auto split: if_splits)

lemma add_field_wf:
  assumes "fields_wf F"
  shows "fields_wf (add_field fld F)"
proof -
  from assms have d: "distinct (map fst (form_fields F))"
    and n: "\<forall>(k, g)\<in>set (form_fields F). name g = k"
    by (simp_all add: fields_wf_def list_all_iff)
  from n dict_set_entries [of "name fld" fld "form_fields F"]
  have "\<forall>(k, g)\<in>set (dict_set (name fld) fld (form_fields F)). name g = k"
    by auto
  with dict_set_distinct [OF d, of "name fld" fld] show ?thesis
    by (simp add: fields_wf_def list_all_iff add_field_def)
qed

lemma add_field_get:
  "dict_get (form_fields (add_field fld F)) k =
     (if name fld = k then Some fld else dict_get (form_fields F) k)"
  by (simp add: add_field_def dict_get_def dict_set_map_of)

lemma add_field_keys:
  "fst ` set (form_fields (add_field fld F)) = insert (name fld) (fst ` set (form_fields F))"
  by (simp add: add_field_def dict_set_keys)

lemma add_fields_snoc: "add_fields (flds @ [fld]) F = add_field fld (add_fields flds F)"
  by (simp add: add_fields_def)

lemma add_fields_wf_get:
  assumes "fields_wf F"
  shows "fields_wf (add_fields flds F)
       \<and> fst ` set (form_fields (add_fields flds F)) = fst ` set (form_fields F) \<union> name ` set flds
       \<and> (\<forall>k. dict_get (form_fields (add_fields flds F)) k =
              (case find (\<lambda>fld. name fld = k) (rev flds) of
                 Some fld \<Rightarrow> Some fld
               | None \<Rightarrow> dict_get (form_fields F) k))"
proof (induction flds rule: rev_induct)
  case Nil
  with assms show ?case by (simp add: add_fields_def)
next
  case (snoc fld flds)
  then show ?case
    by (auto simp: add_fields_snoc add_field_wf add_field_keys add_field_get)
qed

lemma Form_init_wf: "fields_wf (Form_init nm)"
  by (simp add: fields_wf_def Form_init_def)

text \<open>
  Claim C5 says that every FormField added earlier remains present after any sequence of
  \<^verbatim>\<open>add_field\<close> calls. \<^verbatim>\<open>add_field\<close> assigns \<^verbatim>\<open>self.fields[field.name] = field\<close>: a
  second field with the name of an earlier one takes its place, and the earlier field is
  gone.
\<close>

theorem add_field_replaces_counterexample:
  "form_fields (add_field work_email (add_field contact_email (Form_init ''contact''))) =
     [(''email'', work_email)]
   \<and> contact_email \<noteq> work_email"
  by (simp add: add_field_def Form_init_def contact_email_def work_email_def FormField_init_def)

text \<open>
  Claim C5 as amended: after any sequence of \<^verbatim>\<open>add_field\<close> calls on a form whose keys
  are distinct and are the names of their fields (a new form is one), the keys are again
  distinct and are the names of their fields; the names of the form are those it had and
  those of the added fields, so that no name is ever removed; and each name is mapped to
  the field added last under that name, or to the field it had when none was added
  under that name. So an added field remains present until a field of the same name is
  added.
\<close>

theorem add_field_sequence:
  assumes "fields_wf F"
  shows "fields_wf (add_fields flds F)
       \<and> fst ` set (form_fields (add_fields flds F)) = fst ` set (form_fields F) \<union> name ` set flds
       \<and> (\<forall>k. dict_get (form_fields (add_fields flds F)) k =
              (case find (\<lambda>fld. name fld = k) (rev flds) of
                 Some fld \<Rightarrow> Some fld
               | None \<Rightarrow> dict_get (form_fields F) k))
       \<and> fields_wf (add_fields flds (Form_init nm))"
  using add_fields_wf_get [OF Form_init_wf, of flds nm] add_fields_wf_get [OF assms, of flds]
  by simp

theorem add_field_sequence_witness:
  "fields_wf (Form_init ''contact'' :: (int, int pure) Form)
   \<and> fields_wf (add_fields [contact_email, work_email] (Form_init ''contact''))
   \<and> dict_get (form_fields (add_fields [contact_email, work_email] (Form_init ''contact''))) ''email''
       = Some work_email"
proof -
  have h: "fields_wf (Form_init ''contact'' :: (int, int pure) Form)"
    by (simp add: fields_wf_def Form_init_def)
  have f: "find (\<lambda>fld. name fld = ''email'') (rev [contact_email, work_email]) = Some work_email"
    by (simp add: contact_email_def work_email_def FormField_init_def)
  from add_field_sequence [OF h, of "[contact_email, work_email]"] h f show ?thesis
    by simp
qed

subsection \<open>What validate and render_html change\<close>

lemma int_cmp_param_lift: "int_cmp_param env k (lift_param p) = int_cmp_param env k p"
  by (cases "(env, k, p)" rule: int_cmp_param.cases) simp_all

lemma float_cmp_param_lift: "float_cmp_param env x (lift_param p) = float_cmp_param env x p"
  by (cases "(env, x, p)" rule: float_cmp_param.cases) simp_all

lemma param_str_lift: "param_str env (lift_param p) = param_str env p"
  by (cases p) simp_all

lemma pattern_lift: "FieldValidator_pattern env v (lift_param p) = FieldValidator_pattern env v p"
  by (cases p) (auto simp: FieldValidator_pattern_def split: sum.splits pyval.splits)

lemma check_rule_st_lift:
  "check_rule_st env v rule (lift_param p) w = (check_rule env v rule p, w)"
proof (cases rule)
  case CUSTOM
  then show ?thesis by (cases p) (simp_all add: check_rule_st_def check_rule_def)
qed (simp_all add: check_rule_st_def check_rule_def FieldValidator_min_length_def
    FieldValidator_max_length_def FieldValidator_min_value_def FieldValidator_max_value_def
    int_cmp_param_lift float_cmp_param_lift pattern_lift cong: sum.case_cong)

lemma record_error_lift:
  "record_error env n (lift_field fld) (rule, lift_param p, message) ok =
     record_error env n fld (rule, p, message) ok"
proof -
  have h: "default_msg env n (lift_field fld) rule (lift_param p) = default_msg env n fld rule p"
    by (cases rule) (simp_all add: default_msg_def label_or_name_def lift_field_def param_str_lift)
  show ?thesis unfolding record_error_def prod.case h by (rule refl)
qed

lemma apply_validator_st_lift:
  "apply_validator_st env n (lift_field fld) v (rule, lift_param p, message) w =
     (apply_validator env n fld v (rule, p, message), w)"
  by (cases "check_rule env v rule p")
    (simp_all add: apply_validator_st_def apply_validator_def check_rule_st_lift record_error_lift)

lemma validators_loop_st_lift:
  "validators_loop_st env n (lift_field fld) v
     (map (\<lambda>(rule, p, message). (rule, lift_param p, message)) vds) errs w =
     (validators_loop env n fld v vds errs, w)"
proof (induction vds arbitrary: errs)
  case Nil
  then show ?case by simp
next
  case (Cons vd vds)
  obtain rule p message where vd: "vd = (rule, p, message)" by (cases vd)
  show ?case
  proof (cases "apply_validator env n fld v (rule, p, message)")
    case (Inl e)
    with vd show ?thesis by (simp add: apply_validator_st_lift)
  next
    case (Inr es)
    with vd Cons.IH [of "errs @ es"] show ?thesis by (simp add: apply_validator_st_lift)
  qed
qed

lemma lift_field_simps:
  "name (lift_field fld) = name fld"
  "ftype (lift_field fld) = ftype fld"
  "required (lift_field fld) = required fld"
  "default_value (lift_field fld) = default_value fld"
  "validators (lift_field fld) = map (\<lambda>(rule, p, message). (rule, lift_param p, message)) (validators fld)"
  by (simp_all add: lift_field_def)

lemma required_error_lift: "required_error n (lift_field fld) = required_error n fld"
  by (simp add: required_error_def label_or_name_def lift_field_def)

lemma fields_loop_st_lift:
  "fields_loop_st env d (map (\<lambda>(n, fld). (n, lift_field fld)) flds) errs vd w =
     (fields_loop env d flds errs vd, w)"
proof (induction flds arbitrary: errs vd)
  case Nil
  then show ?case by simp
next
  case (Cons a flds)
  obtain n fld where a: "a = (n, fld)" by (cases a)
  let ?v = "data_get d n (default_value fld)"
  show ?case
  proof (cases "required fld \<and> \<not> FieldValidator_required ?v")
    case True
    with a Cons.IH show ?thesis by (simp add: lift_field_simps required_error_lift)
  next
    case False
    show ?thesis
    proof (cases "validators_loop env n fld ?v (validators fld) errs")
      case (Inl e)
      with a False show ?thesis
        by (auto simp: lift_field_simps validators_loop_st_lift Let_def)
    next
      case (Inr errs1)
      with a False Cons.IH [of errs1 "dict_set n ?v vd"] show ?thesis
        by (auto simp: lift_field_simps validators_loop_st_lift Let_def)
    qed
  qed
qed

lemma validate_st_lift: "validate_st env (lift_form F) d w = (validate env F d, w)"
proof (cases "fields_loop env d (form_fields F) [] []")
  case (Inl e)
  then show ?thesis
    by (simp add: validate_st_def validate_def lift_form_def fields_loop_st_lift)
next
  case (Inr r)
  then show ?thesis
    by (cases r) (simp add: validate_st_def validate_def lift_form_def fields_loop_st_lift)
qed

lemma render_control_lift:
  "render_control env (lift_field fld) v ev = render_control env fld v ev"
  by (simp add: render_control_def attrs_def lift_field_def)

lemma render_parts_lift: "render_parts env (lift_field fld) v ev = render_parts env fld v ev"
  by (simp add: render_parts_def render_control_lift) (simp add: lift_field_def)

lemma render_field_lift: "render_field env (lift_field fld) v = render_field env fld v"
  by (simp add: render_field_def render_parts_lift lift_field_simps split: sum.splits)

lemma render_fields_lift:
  "render_fields env d (map (\<lambda>(n, fld). (n, lift_field fld)) flds) = render_fields env d flds"
proof (induction flds)
  case Nil
  then show ?case by simp
next
  case (Cons a flds)
  obtain n fld where a: "a = (n, fld)" by (cases a)
  with Cons show ?case by (simp add: render_field_lift lift_field_simps split: sum.splits)
qed

lemma render_html_lift: "render_html env (lift_form F) data = render_html env F data"
  by (simp add: render_html_def lift_form_def render_fields_lift)

lemma call_method_reads:
  "reads_only c \<Longrightarrow> snd (call_method env c (lift_form F, w)) = (lift_form F, w)"
  by (cases c) (simp_all add: validate_st_lift)

lemma run_calls_reads:
  "list_all reads_only cs \<Longrightarrow>
   run_calls env cs (lift_form F, w) =
     (map (\<lambda>c. fst (call_method env c (lift_form F, w))) cs, (lift_form F, w))"
proof (induction cs)
  case Nil
  then show ?case by simp
next
  case (Cons c cs)
  then have "snd (call_method env c (lift_form F, w)) = (lift_form F, w)"
    by (simp add: call_method_reads)
  then have c: "call_method env c (lift_form F, w) =
      (fst (call_method env c (lift_form F, w)), (lift_form F, w))"
    by (simp add: prod_eq_iff)
  from Cons have "run_calls env cs (lift_form F, w) =
      (map (\<lambda>c. fst (call_method env c (lift_form F, w))) cs, (lift_form F, w))"
    by simp
  then show ?case
    by (subst run_calls.simps, subst c) simp
qed

text \<open>
  Claim C10 says that validate does not change the form and that, consequently, two calls
  of validate with the same data have the same result. validate calls the custom
  predicates, and a predicate with a state changes it: the predicate \<open>once\<close> accepts the
  absent value in the first call of validate and rejects it in the second.
\<close>

theorem stateful_predicate_counterexample:
  "validate_st example_env once_form Map.empty 0 =
     (Inr \<lparr> data_fields = [(''code'', PNone)], valid = True, errors = [] \<rparr>, 1)
   \<and> validate_st example_env once_form Map.empty 1 =
     (Inr \<lparr> data_fields = [(''code'', PNone)], valid = False,
            errors = [\<lparr> err_field = ''code'', err_rule = ''custom'',
                        err_message = ''code validation failed'' \<rparr>] \<rparr>, 2)
   \<and> fst (run_calls example_env [Validate Map.empty, Validate Map.empty] (once_form, 0)) =
     [Validated (Inr \<lparr> data_fields = [(''code'', PNone)], valid = True, errors = [] \<rparr>),
      Validated (Inr \<lparr> data_fields = [(''code'', PNone)], valid = False,
            errors = [\<lparr> err_field = ''code'', err_rule = ''custom'',
                        err_message = ''code validation failed'' \<rparr>] \<rparr>)]"
  by code_simp

text \<open>
  Claim C10 as amended: validate and render_html assign to their local variables only, so
  that the only state a call can change is the state of the custom predicates that
  validate calls. On a form whose predicates have no state, validate leaves every state
  as it is and returns what it returns on any other state (first conjunct), and
  render_html calls no predicate (second conjunct). In any sequence of validate and
  render_html calls on such a form, the form and the state after the sequence are those
  before it, each call replies what it replies at the start, and two validate calls with
  the same data have the same reply.
\<close>

theorem validate_render_frame:
  assumes "list_all reads_only cs"
  shows "validate_st env (lift_form F) d w = (validate env F d, w)
       \<and> render_html env (lift_form F) data = render_html env F data
       \<and> snd (run_calls env cs (lift_form F, w)) = (lift_form F, w)
       \<and> fst (run_calls env cs (lift_form F, w)) =
           map (\<lambda>c. fst (call_method env c (lift_form F, w))) cs
       \<and> run_calls env [Validate d, Validate d] (lift_form F, w) =
           ([Validated (validate env F d), Validated (validate env F d)], (lift_form F, w))"
  using run_calls_reads [OF assms, of env F w] validate_st_lift [of env F d w]
    render_html_lift [of env F data]
  by simp

theorem validate_render_frame_witness:
  "list_all reads_only
     [Validate [''password'' \<mapsto> PStr ''abc''], RenderHtml None,
      Validate [''password'' \<mapsto> PStr ''abc''] :: (int, nat) call]
   \<and> snd (run_calls example_env
        [Validate [''password'' \<mapsto> PStr ''abc''], RenderHtml None,
         Validate [''password'' \<mapsto> PStr ''abc'']]
        (lift_form password_form, 0 :: nat)) = (lift_form password_form, 0)
   \<and> validate_st example_env (lift_form password_form) [''password'' \<mapsto> PStr ''abc''] (0 :: nat) =
       (Inr \<lparr> data_fields = [(''password'', PStr ''abc'')], valid = False,
              errors = [\<lparr> err_field = ''password'', err_rule = ''min_length'',
                          err_message = ''Minimum length is 8'' \<rparr>] \<rparr>, 0)"
proof -
  have h: "validate example_env password_form [''password'' \<mapsto> PStr ''abc''] =
     Inr \<lparr> data_fields = [(''password'', PStr ''abc'')], valid = False,
           errors = [\<lparr> err_field = ''password'', err_rule = ''min_length'',
                       err_message = ''Minimum length is 8'' \<rparr>] \<rparr>"
    by code_simp
  have r: "list_all reads_only
     [Validate [''password'' \<mapsto> PStr ''abc''], RenderHtml None,
      Validate [''password'' \<mapsto> PStr ''abc''] :: (int, nat) call]"
    by simp
  note t = validate_render_frame [OF r, of example_env password_form
      "[''password'' \<mapsto> PStr ''abc'']" "0 :: nat" None]
  from t have a: "snd (run_calls example_env
        [Validate [''password'' \<mapsto> PStr ''abc''], RenderHtml None,
         Validate [''password'' \<mapsto> PStr ''abc'']]
        (lift_form password_form, 0 :: nat)) = (lift_form password_form, 0)"
    by blast
  from t have "validate_st example_env (lift_form password_form) [''password'' \<mapsto> PStr ''abc''] (0 :: nat) =
      (validate example_env password_form [''password'' \<mapsto> PStr ''abc''], 0)"
    by blast
  with h have b: "validate_st example_env (lift_form password_form) [''password'' \<mapsto> PStr ''abc''] (0 :: nat) =
       (Inr \<lparr> data_fields = [(''password'', PStr ''abc'')], valid = False,
              errors = [\<lparr> err_field = ''password'', err_rule = ''min_length'',
                          err_message = ''Minimum length is 8'' \<rparr>] \<rparr>, 0)"
    by (simp only:)
  from r a b show ?thesis by blast
qed

subsection \<open>The options of a select field\<close>

lemma int_str_raises_zero: "\<not> int_str_raises env 0"
  by (auto simp: int_str_raises_def str_nat.simps [of 0])

lemma py_str_raises: "py_str env v = Inl e \<Longrightarrow> truthy env v \<and> e = ValueError"
  using int_str_raises_zero [of env] by (cases v) (auto split: if_splits)

lemma escaped_value_raises: "py_str env v = Inl e \<Longrightarrow> escaped_value env v = Inl e"
  using py_str_raises [of env v e] by (simp add: escaped_value_def)

lemma escaped_value_str:
  "py_str env v = Inr s \<Longrightarrow>
   escaped_value env v = Inr (if truthy env v then html_escape s else [])"
  by (simp add: escaped_value_def)

lemma escaped_value_cases:
  "escaped_value env v = Inl e \<Longrightarrow> py_str env v = Inl e"
  by (cases "py_str env v") (auto simp: escaped_value_def split: if_splits)

lemma render_options_str:
  "py_str env v = Inr s \<Longrightarrow>
   render_options env v opts = Inr (map (\<lambda>opt. option_element opt (opt_value opt = s)) opts)"
  by (induction opts) (simp_all add: render_option_def option_element_def flag_def)

lemma option_element_marker: "option_element opt True \<noteq> option_element opt False"
proof
  assume "option_element opt True = option_element opt False"
  then have "length (option_element opt True) = length (option_element opt False)" by simp
  then show False by (simp add: option_element_def)
qed

lemma render_option_flags:
  "render_option env v (opt\<lparr> opt_selected := b \<rparr>) = render_option env v opt"
  by (simp add: render_option_def split: sum.splits)

lemma render_options_flags:
  "render_options env v (map (\<lambda>opt. opt\<lparr> opt_selected := sel opt \<rparr>) opts) = render_options env v opts"
  by (induction opts) (simp_all add: render_option_flags split: sum.splits)

lemma render_control_flags:
  "render_control env (fld\<lparr> options := map (\<lambda>opt. opt\<lparr> opt_selected := sel opt \<rparr>) (options fld) \<rparr>) v ev
   = render_control env fld v ev"
  by (simp add: render_control_def attrs_def render_options_flags)

lemma render_field_flags:
  "render_field env (fld\<lparr> options := map (\<lambda>opt. opt\<lparr> opt_selected := sel opt \<rparr>) (options fld) \<rparr>) v
   = render_field env fld v"
  by (simp add: render_field_def render_parts_def render_control_flags split: sum.splits)

lemma render_field_select:
  assumes "ftype fld = SELECT"
  shows "\<exists>pre post. \<forall>v. render_field env fld v =
            map_sum id
              (\<lambda>s. join newline
                 (pre @ map (\<lambda>opt. option_element opt (opt_value opt = s)) (options fld) @ post))
              (py_str env v)"
proof -
  let ?pre = \<open>[''<div class="form-group">'']
     @ (if label fld \<noteq> [] then [''<label for="'' @ name fld @ ''">'' @ label fld @ ''</label>''] else [])
     @ [''<select name="'' @ name fld @ ''" id="'' @ name fld @ ''"''
           @ flag (required fld) '' required'' @ flag (disabled fld) '' disabled''
           @ '' '' @ attrs fld @ ''>'']\<close>
  let ?post = "[''</select>'']
     @ (if help_text fld \<noteq> [] then [''<small>'' @ help_text fld @ ''</small>''] else [])
     @ [''</div>'']"
  have "render_field env fld v =
      map_sum id
        (\<lambda>s. join newline
           (?pre @ map (\<lambda>opt. option_element opt (opt_value opt = s)) (options fld) @ ?post))
        (py_str env v)" for v
  proof (cases "py_str env v")
    case (Inl e)
    with escaped_value_raises [OF Inl] show ?thesis by (simp add: render_field_def)
  next
    case (Inr s)
    with assms escaped_value_str [OF Inr] render_options_str [OF Inr, of "options fld"]
    show ?thesis
      by (simp add: render_field_def render_parts_def render_control_def)
  qed
  then show ?thesis by blast
qed

text \<open>
  Claim C7: in the markup of a select field, the lines between the opening of the select
  element and its end are one option element for each option, in order, and the element
  of an option carries the selected marker exactly when the value of the option is
  \<^verbatim>\<open>str(value)\<close> of the resolved value (the first conjunct; the lines before and
  after do not depend on the value, and there is no markup only when \<^verbatim>\<open>str(value)\<close>
  raises). An element with the marker differs from the one without. The selected flags of
  the options themselves have no influence: with any other flags the markup is the same.
\<close>

theorem select_marks_matching_option:
  assumes "ftype fld = SELECT"
  shows "(\<exists>pre post. \<forall>v. render_field env fld v =
            map_sum id
              (\<lambda>s. join newline
                 (pre @ map (\<lambda>opt. option_element opt (opt_value opt = s)) (options fld) @ post))
              (py_str env v))
       \<and> option_element opt True \<noteq> option_element opt False
       \<and> render_field env
            (fld\<lparr> options := map (\<lambda>opt. opt\<lparr> opt_selected := sel opt \<rparr>) (options fld) \<rparr>) v
          = render_field env fld v"
  using render_field_select [OF assms, of env] option_element_marker [of opt]
    render_field_flags [of env sel fld v]
  by blast

theorem select_marks_matching_option_witness:
  \<open>ftype rating_field = SELECT
   \<and> py_str example_env (PInt 1) = Inr ''1''
   \<and> render_field example_env rating_field (PInt 1) =
       Inr (join newline
         [''<div class="form-group">'',
          ''<select name="rating" id="rating" >'',
          ''<option value="">Choose</option>'',
          ''<option value="0">Poor</option>'',
          ''<option value="1" selected>Good</option>'',
          ''</select>'',
          ''</div>''])
   \<and> option_element \<lparr> opt_value = ''1'', opt_label = ''Good'', opt_selected = False, opt_disabled = False \<rparr> True
       = ''<option value="1" selected>Good</option>''\<close>
proof -
  have h: "ftype rating_field = SELECT" by code_simp
  have s: "py_str example_env (PInt 1) = Inr ''1''" by code_simp
  have r: \<open>render_field example_env rating_field (PInt 1) =
       Inr (join newline
         [''<div class="form-group">'',
          ''<select name="rating" id="rating" >'',
          ''<option value="">Choose</option>'',
          ''<option value="0">Poor</option>'',
          ''<option value="1" selected>Good</option>'',
          ''</select>'',
          ''</div>''])\<close>
    by code_simp
  have e: \<open>option_element \<lparr> opt_value = ''1'', opt_label = ''Good'', opt_selected = False, opt_disabled = False \<rparr> True
       = ''<option value="1" selected>Good</option>''\<close>
    by code_simp
  from select_marks_matching_option [OF h] h s r e show ?thesis by blast
qed

subsection \<open>Escaping\<close>

lemma filter_join:
  "filter P (join sep xs) = join (filter P sep) (map (filter P) xs)"
  by (induction sep xs rule: join.induct) simp_all

lemma special_escape_char: "filter special (escape_char c) = []"
  by (simp add: escape_char_def special_def)

lemma special_html_escape: "filter special (html_escape s) = []"
  by (induction s) (simp_all add: html_escape_def special_escape_char)

lemma special_flag:
  "filter special (flag b '' selected'') = []" "filter special (flag b '' checked'') = []"
  by (simp_all add: flag_def special_def)

lemma special_option_element:
  "filter special (option_element opt b) = filter special (option_element opt False)"
  by (simp add: option_element_def special_def)

lemma special_options:
  "map (filter special) (map (\<lambda>opt. option_element opt (opt_value opt = s)) opts) =
   map (filter special) (map (\<lambda>opt. option_element opt (opt_value opt = t)) opts)"
  using special_option_element by (induction opts) (simp_all, metis)

lemma special_render_control:
  assumes "py_str env v = Inr s" and "py_str env w = Inr t"
    and "filter special ev = []" and "filter special ev' = []"
  shows "\<exists>c c'. render_control env fld v ev = Inr c \<and> render_control env fld w ev' = Inr c'
           \<and> map (filter special) c = map (filter special) c'"
proof -
  consider "ftype fld = TEXTAREA" | "ftype fld = SELECT" | "ftype fld = CHECKBOX"
    | "ftype fld \<noteq> TEXTAREA" "ftype fld \<noteq> SELECT" "ftype fld \<noteq> CHECKBOX"
    by blast
  then show ?thesis
  proof cases
    case 1
    with assms(3) assms(4) show ?thesis by (simp add: render_control_def)
  next
    case 2
    with render_options_str [OF assms(1), of "options fld"]
      render_options_str [OF assms(2), of "options fld"] special_options [of s "options fld" t]
    show ?thesis by (simp add: render_control_def)
  next
    case 3
    then show ?thesis by (simp add: render_control_def special_flag)
  next
    case 4
    with assms(3) assms(4) show ?thesis by (simp add: render_control_def)
  qed
qed

lemma special_render_parts:
  assumes "py_str env v = Inr s" and "py_str env w = Inr t"
    and "filter special ev = []" and "filter special ev' = []"
  shows "\<exists>ps ps'. render_parts env fld v ev = Inr ps \<and> render_parts env fld w ev' = Inr ps'
           \<and> map (filter special) ps = map (filter special) ps'"
proof -
  from special_render_control [OF assms, of fld] obtain c c' where
    c: "render_control env fld v ev = Inr c" "render_control env fld w ev' = Inr c'"
    "map (filter special) c = map (filter special) c'"
    by blast
  then show ?thesis by (simp add: render_parts_def)
qed

lemma special_escaped_value:
  "py_str env v = Inr s \<Longrightarrow> \<exists>ev. escaped_value env v = Inr ev \<and> filter special ev = []"
  by (simp add: escaped_value_def special_html_escape)

lemma special_render_field:
  assumes "py_str env v = Inr s" and "py_str env w = Inr t"
  shows "\<exists>m m'. render_field env fld v = Inr m \<and> render_field env fld w = Inr m'
           \<and> filter special m = filter special m'"
proof -
  from special_escaped_value [OF assms(1)] obtain ev where
    ev: "escaped_value env v = Inr ev" "filter special ev = []" by blast
  from special_escaped_value [OF assms(2)] obtain ev' where
    ev': "escaped_value env w = Inr ev'" "filter special ev' = []" by blast
  show ?thesis
  proof (cases "ftype fld = HIDDEN")
    case True
    with ev ev' show ?thesis by (simp add: render_field_def)
  next
    case False
    from special_render_parts [OF assms ev(2) ev'(2), of fld] obtain ps ps' where
      "render_parts env fld v ev = Inr ps" "render_parts env fld w ev' = Inr ps'"
      "map (filter special) ps = map (filter special) ps'"
      by blast
    with False ev ev' show ?thesis by (simp add: render_field_def filter_join)
  qed
qed

lemma render_field_escaped:
  assumes "ftype fld \<noteq> SELECT" and "ftype fld \<noteq> CHECKBOX"
  shows "\<exists>pre post. \<forall>w. render_field env fld w =
           map_sum id (\<lambda>ev. pre @ ev @ post) (escaped_value env w)"
proof (cases "ftype fld = HIDDEN")
  case True
  then have \<open>\<forall>w. render_field env fld w =
      map_sum id (\<lambda>ev. (''<input type="hidden" name="'' @ name fld @ ''" value="'') @ ev @ ''">'')
        (escaped_value env w)\<close>
    by (simp add: render_field_def split: sum.splits)
  then show ?thesis by blast
next
  case False
  let ?head = \<open>''<div class="form-group">'' @ newline
     @ (if label fld \<noteq> [] then ''<label for="'' @ name fld @ ''">'' @ label fld @ ''</label>'' @ newline else [])\<close>
  let ?tail = "newline @ (if help_text fld \<noteq> [] then ''<small>'' @ help_text fld @ ''</small>'' @ newline else [])
     @ ''</div>''"
  show ?thesis
  proof (cases "ftype fld = TEXTAREA")
    case True
    have \<open>\<forall>w. render_field env fld w =
      map_sum id (\<lambda>ev.
        (?head @ ''<textarea name="'' @ name fld @ ''" id="'' @ name fld
           @ ''" placeholder="'' @ placeholder fld @ ''"''
           @ flag (required fld) '' required'' @ flag (disabled fld) '' disabled''
           @ flag (readonly fld) '' readonly'' @ '' '' @ attrs fld @ ''>'')
        @ ev @ (''</textarea>'' @ ?tail)) (escaped_value env w)\<close>
      using True
      by (simp add: render_field_def render_parts_def render_control_def split: sum.splits)
    then show ?thesis by blast
  next
    case False
    have \<open>\<forall>w. render_field env fld w =
      map_sum id (\<lambda>ev.
        (?head @ ''<input type="'' @ type_value (ftype fld) @ ''" name="'' @ name fld
           @ ''" id="'' @ name fld @ ''" value="'')
        @ ev
        @ (''" placeholder="'' @ placeholder fld @ ''"''
           @ flag (required fld) '' required'' @ flag (disabled fld) '' disabled''
           @ flag (readonly fld) '' readonly'' @ '' '' @ attrs fld @ ''>'' @ ?tail))
        (escaped_value env w)\<close>
      using False \<open>ftype fld \<noteq> HIDDEN\<close> assms
      by (simp add: render_field_def render_parts_def render_control_def split: sum.splits)
    then show ?thesis by blast
  qed
qed

text \<open>
  Claim C3 says that the label, the placeholder, the help text and the values and labels
  of the options are escaped like the resolved value, and that the markup of a field with
  the value \<open><script>\<close> never contains \<open><script>\<close>. The code escapes the resolved value
  only. A text field whose label is \<open><script>\<close> has the label in its markup as it is.
\<close>

theorem label_not_escaped_counterexample:
  \<open>render_field example_env comment_field (PStr ''<script>'') =
     Inr (join newline
       [''<div class="form-group">'',
        ''<label for="comment"><script></label>'',
        ''<input type="text" name="comment" id="comment" value="&lt;script&gt;" placeholder="" >'',
        ''</div>''])
   \<and> (case render_field example_env comment_field (PStr ''<script>'') of
        Inl e \<Rightarrow> False | Inr m \<Rightarrow> sublist ''<script>'' m)\<close>
  by code_simp

text \<open>
  Claim C3 as amended: the resolved value is escaped wherever it is inserted into the
  markup. The markup of a field with a value has the same tag and quote characters, in the
  same order, as the markup of the field without a value: the value contributes none
  (there is no markup only when the escaped value raises, which is when \<^verbatim>\<open>str(value)\<close>
  does). For a field that is neither a select nor a checkbox the markup is a text before,
  the escaped value, and a text after, neither of which depends on the value (a select or
  a checkbox does not insert the value). The escaped value of a value that is not false is
  \<^verbatim>\<open>html.escape(str(value))\<close>, which has no tag or quote character; for \<open><script>\<close>
  it is \<open>&lt;script&gt;\<close>. The name, label, placeholder, help text, options and
  attributes of the field are inserted as they are.
\<close>

theorem value_is_escaped:
  "(\<exists>m0. render_field env fld PNone = Inr m0
       \<and> (\<forall>w. case render_field env fld w of
                 Inl e \<Rightarrow> escaped_value env w = Inl e
               | Inr m \<Rightarrow> filter special m = filter special m0))
   \<and> (ftype fld \<noteq> SELECT \<and> ftype fld \<noteq> CHECKBOX \<longrightarrow>
        (\<exists>pre post. \<forall>w. render_field env fld w =
           map_sum id (\<lambda>ev. pre @ ev @ post) (escaped_value env w)))
   \<and> (truthy env v \<longrightarrow> escaped_value env v = map_sum id html_escape (py_str env v))
   \<and> filter special (html_escape s) = []
   \<and> html_escape ''<script>'' = ''&lt;script&gt;''"
proof -
  have n: "py_str env PNone = Inr ''None''" by simp
  from special_render_field [OF n n, of fld] obtain m0 where
    m0: "render_field env fld PNone = Inr m0" by blast
  have "case render_field env fld w of
          Inl e \<Rightarrow> escaped_value env w = Inl e
        | Inr m \<Rightarrow> filter special m = filter special m0" for w
  proof (cases "py_str env w")
    case (Inl e)
    with escaped_value_raises [OF Inl] show ?thesis by (simp add: render_field_def)
  next
    case (Inr t)
    from special_render_field [OF Inr n, of fld] m0 show ?thesis by auto
  qed
  with m0 have a: "\<exists>m0. render_field env fld PNone = Inr m0
       \<and> (\<forall>w. case render_field env fld w of
                 Inl e \<Rightarrow> escaped_value env w = Inl e
               | Inr m \<Rightarrow> filter special m = filter special m0)"
    by blast
  have e: "html_escape ''<script>'' = ''&lt;script&gt;''"
    by (simp add: html_escape_def escape_char_def)
  have t: "truthy env v \<longrightarrow> escaped_value env v = map_sum id html_escape (py_str env v)"
    by (simp add: escaped_value_def)
  from a e t render_field_escaped [of fld env] special_html_escape [of s]
  show ?thesis by blast
qed

theorem value_is_escaped_witness:
  \<open>ftype plain_field \<noteq> SELECT \<and> ftype plain_field \<noteq> CHECKBOX
   \<and> truthy example_env (PStr ''<script>'')
   \<and> escaped_value example_env (PStr ''<script>'') = Inr ''&lt;script&gt;''
   \<and> render_field example_env plain_field (PStr ''<script>'') =
       Inr (join newline
         [''<div class="form-group">'',
          ''<label for="comment">Comment</label>'',
          ''<input type="text" name="comment" id="comment" value="&lt;script&gt;" placeholder="" >'',
          ''</div>''])
   \<and> \<not> sublist ''<script>''
         (join newline
           [''<div class="form-group">'',
            ''<label for="comment">Comment</label>'',
            ''<input type="text" name="comment" id="comment" value="&lt;script&gt;" placeholder="" >'',
            ''</div>''])
   \<and> (\<exists>pre post. \<forall>w. render_field example_env plain_field w =
          map_sum id (\<lambda>ev. pre @ ev @ post) (escaped_value example_env w))\<close>
proof -
  have h: "ftype plain_field \<noteq> SELECT \<and> ftype plain_field \<noteq> CHECKBOX" by code_simp
  have t: \<open>truthy example_env (PStr ''<script>'')\<close> by simp
  have r: \<open>render_field example_env plain_field (PStr ''<script>'') =
       Inr (join newline
         [''<div class="form-group">'',
          ''<label for="comment">Comment</label>'',
          ''<input type="text" name="comment" id="comment" value="&lt;script&gt;" placeholder="" >'',
          ''</div>''])\<close>
    by code_simp
  have n: \<open>\<not> sublist ''<script>''
         (join newline
           [''<div class="form-group">'',
            ''<label for="comment">Comment</label>'',
            ''<input type="text" name="comment" id="comment" value="&lt;script&gt;" placeholder="" >'',
            ''</div>''])\<close>
    by code_simp
  note v = value_is_escaped [of example_env plain_field \<open>PStr ''<script>''\<close>]
  from v t have \<open>escaped_value example_env (PStr ''<script>'') =
      map_sum id html_escape (py_str example_env (PStr ''<script>''))\<close>
    by blast
  moreover from v have \<open>html_escape ''<script>'' = ''&lt;script&gt;''\<close> by blast
  ultimately have e: \<open>escaped_value example_env (PStr ''<script>'') = Inr ''&lt;script&gt;''\<close>
    by simp
  from v h have p: "\<exists>pre post. \<forall>w. render_field example_env plain_field w =
          map_sum id (\<lambda>ev. pre @ ev @ post) (escaped_value example_env w)"
    by blast
  from h t e r n p show ?thesis by blast
qed

subsection \<open>The display value of render_html\<close>








subsection \<open>The result of validate, field by field\<close>

lemma dict_set_fresh: "k \<notin> fst ` set d \<Longrightarrow> dict_set k v d = d @ [(k, v)]"
  by (induction d) auto

lemma fields_loop_recorded:
  assumes "fields_loop env d flds errs vd = Inr (errs', vd')"
    and "distinct (map fst flds)"
    and "fst ` set vd \<inter> fst ` set flds = {}"
  shows "vd' = vd @ map (resolved_entry d) (filter (\<lambda>nf. \<not> short_circuited d nf) flds)"
  using assms
proof (induction flds arbitrary: errs vd)
  case Nil
  then show ?case by simp
next
  case (Cons a flds)
  obtain n fld where a: "a = (n, fld)" by (cases a)
  let ?v = "data_get d n (default_value fld)"
  from Cons.prems a have dist: "distinct (map fst flds)" and nin: "n \<notin> fst ` set flds"
    and nvd: "n \<notin> fst ` set vd" and disj: "fst ` set vd \<inter> fst ` set flds = {}"
    by auto
  show ?case
  proof (cases "required fld \<and> \<not> FieldValidator_required ?v")
    case True
    with Cons.prems a have
      "fields_loop env d flds (errs @ [required_error n fld]) vd = Inr (errs', vd')"
      by simp
    from Cons.IH [OF this dist disj] True a show ?thesis
      by (simp add: short_circuited_def)
  next
    case False
    with Cons.prems a obtain errs1 where
      l: "validators_loop env n fld ?v (validators fld) errs = Inr errs1"
      and r: "fields_loop env d flds errs1 (dict_set n ?v vd) = Inr (errs', vd')"
      by (auto simp: Let_def split: sum.splits)
    from nvd have ds: "dict_set n ?v vd = vd @ [(n, ?v)]" by (rule dict_set_fresh)
    with nin disj have "fst ` set (dict_set n ?v vd) \<inter> fst ` set flds = {}" by auto
    from Cons.IH [OF r dist this] False a ds show ?thesis
      by (auto simp: short_circuited_def resolved_entry_def)
  qed
qed

text \<open>
  The errors of the result are in the order of the fields, and for each field in the
  order in which its validators were attached.
\<close>

theorem validate_errors_order:
  assumes "validate env F d = Inr fd"
  shows "errors fd = concat (map (field_errors env d) (form_fields F))"
  using assms by (rule validate_errors)

theorem validate_errors_order_witness:
  "errors \<lparr> data_fields = [(''password'', PStr ''abc'' :: int pyval)], valid = False,
             errors = [\<lparr> err_field = ''password'', err_rule = ''min_length'',
                         err_message = ''Minimum length is 8'' \<rparr>] \<rparr> =
     concat (map (field_errors example_env [''password'' \<mapsto> PStr ''abc''])
               (form_fields password_form))"
proof -
  have h1: "validate example_env password_form [''password'' \<mapsto> PStr ''abc''] =
     Inr \<lparr> data_fields = [(''password'', PStr ''abc'')], valid = False,
           errors = [\<lparr> err_field = ''password'', err_rule = ''min_length'',
                       err_message = ''Minimum length is 8'' \<rparr>] \<rparr>"
    by code_simp
  from validate_errors_order [OF h1] show ?thesis .
qed

text \<open>
  The result mapping has, in the order of the fields, the resolved value of every field
  that is not short-circuited by the required check, and no other entry.
\<close>

theorem validate_recorded_fields:
  assumes "validate env F d = Inr fd" and "distinct (map fst (form_fields F))"
  shows "data_fields fd =
           map (resolved_entry d) (filter (\<lambda>nf. \<not> short_circuited d nf) (form_fields F))"
proof -
  from assms(1) obtain errs vd where
    l: "fields_loop env d (form_fields F) [] [] = Inr (errs, vd)" and fd: "data_fields fd = vd"
    by (auto simp: validate_def split: sum.splits prod.splits)
  from fields_loop_recorded [OF l assms(2)] fd show ?thesis by simp
qed

theorem validate_recorded_fields_witness:
  "distinct (map fst (form_fields password_form))
   \<and> data_fields \<lparr> data_fields = [] :: (string \<times> int pyval) list, valid = False,
               errors = [\<lparr> err_field = ''password'', err_rule = ''required'',
                           err_message = ''Password is required'' \<rparr>] \<rparr> =
       map (resolved_entry [''password'' \<mapsto> PStr []])
         (filter (\<lambda>nf. \<not> short_circuited [''password'' \<mapsto> PStr []] nf) (form_fields password_form))"
proof -
  have h1: "validate example_env password_form [''password'' \<mapsto> PStr []] =
     Inr \<lparr> data_fields = [], valid = False,
           errors = [\<lparr> err_field = ''password'', err_rule = ''required'',
                       err_message = ''Password is required'' \<rparr>] \<rparr>"
    by code_simp
  have h2: "distinct (map fst (form_fields password_form))" by code_simp
  from validate_recorded_fields [OF h1 h2] h2 show ?thesis by simp
qed

text \<open>The valid flag of the result is set exactly when the result has no error.\<close>

theorem validate_valid_flag:
  assumes "validate env F d = Inr fd"
  shows "valid fd = (errors fd = [])"
  using assms by (auto simp: validate_def split: sum.splits prod.splits)

theorem validate_valid_flag_witness:
  "valid \<lparr> data_fields = [(''age'', PInt 150 :: int pyval)], valid = False,
           errors = [\<lparr> err_field = ''age'', err_rule = ''max_value'',
                       err_message = ''Maximum value is 120'' \<rparr>] \<rparr> =
     (errors \<lparr> data_fields = [(''age'', PInt 150 :: int pyval)], valid = False,
           errors = [\<lparr> err_field = ''age'', err_rule = ''max_value'',
                       err_message = ''Maximum value is 120'' \<rparr>] \<rparr> = [])"
proof -
  have h: "validate example_env age_form [''age'' \<mapsto> PInt 150] =
     Inr \<lparr> data_fields = [(''age'', PInt 150)], valid = False,
           errors = [\<lparr> err_field = ''age'', err_rule = ''max_value'',
                       err_message = ''Maximum value is 120'' \<rparr>] \<rparr>"
    by code_simp
  from validate_valid_flag [OF h] show ?thesis .
qed

text \<open>
  The age 150 submitted for a number field with the bounds 0 and 120 is invalid, with
  one error of the rule \<open>max_value\<close> whose message names the bound.
\<close>

theorem age_out_of_range:
  "validate example_env age_form [''age'' \<mapsto> PInt 150] =
     Inr \<lparr> data_fields = [(''age'', PInt 150)], valid = False,
           errors = [\<lparr> err_field = ''age'', err_rule = ''max_value'',
                       err_message = ''Maximum value is 120'' \<rparr>] \<rparr>"
  by code_simp

end
